theory Spec2Isabelle
  imports Complex_Main "HOL-Library.Log_Nat"
begin

section \<open>Commute tracker (main.py): a shallow embedding\<close>

text \<open>
  The program reads a list of routes from a configuration document, decides for each
  route whether a directions query is due, queries the provider, turns every returned
  alternative into a row and appends the rows to the route's worksheet, and finally
  records the time of the run in the worksheet \<^verbatim>\<open>LastRunLog\<close>.

  Python strings are modelled as \<^typ>\<open>string\<close>, read as UTF-8 bytes. Every
  pattern the program searches for is ASCII, so replacing on bytes and replacing on
  code points agree. Exceptions are values of the type \<open>exn\<close>; a function that
  can raise returns \<open>exn + 'a\<close>, with \<open>Inl\<close> the exception. The \<^verbatim>\<open>print\<close>
  calls are not modelled.
\<close>

subsection \<open>Exceptions\<close>

datatype exn =
    KeyError string         \<comment> \<open>a missing dictionary key\<close>
  | IndexError              \<comment> \<open>\<^verbatim>\<open>r["legs"][0]\<close> on an empty list\<close>
  | ValueError              \<comment> \<open>\<^verbatim>\<open>strptime\<close> on a string that is not \<^verbatim>\<open>%H:%M\<close>\<close>
  | OverflowError           \<comment> \<open>an integer too large for a float\<close>
  | JSONDecodeError         \<comment> \<open>\<^verbatim>\<open>response.json()\<close> on a body that is not JSON\<close>
  | RequestException        \<comment> \<open>\<^verbatim>\<open>requests.get\<close>: the network request failed\<close>
  | WorksheetNotFound       \<comment> \<open>\<^verbatim>\<open>sh.worksheet(name)\<close>: no tab of that name\<close>
  | APIError                \<comment> \<open>a call of the spreadsheet service failed\<close>
  | ConfigError             \<comment> \<open>the configuration file is missing or is not JSON\<close>

subsection \<open>Strings: \<^verbatim>\<open>str.replace\<close> and \<^verbatim>\<open>str.join\<close>\<close>

text \<open>
  \<^verbatim>\<open>s.replace(old, new)\<close> scans \<^verbatim>\<open>s\<close> from the left and replaces the
  non-overlapping occurrences of \<^verbatim>\<open>old\<close>; the text it has produced is not scanned
  again. With an empty \<^verbatim>\<open>old\<close>, \<^verbatim>\<open>new\<close> is put before every character and
  at the end.
\<close>

function str_replace :: "string \<Rightarrow> string \<Rightarrow> string \<Rightarrow> string" where
  "str_replace s [] new = new @ concat (map (\<lambda>c. c # new) s)"
| "str_replace [] (p # ps) new = []"
| "str_replace (c # cs) (p # ps) new =
     (if take (Suc (length ps)) (c # cs) = p # ps
      then new @ str_replace (drop (length ps) cs) (p # ps) new
      else c # str_replace cs (p # ps) new)"
  by pat_completeness auto
termination
  by (relation "measure (\<lambda>(s, old, new). length s)") auto

fun str_join :: "string \<Rightarrow> string list \<Rightarrow> string" where
  "str_join sep [] = []"
| "str_join sep [x] = x"
| "str_join sep (x # y # ys) = x @ sep @ str_join sep (y # ys)"

definition arrow :: string where
  \<comment> \<open>the separator \<^verbatim>\<open>" \<rightarrow> "\<close>: a space, U+2192 in UTF-8 (E2 86 92), a space\<close>
  "arrow = [CHR '' '', CHR 0xE2, CHR 0x86, CHR 0x92, CHR '' '']"

definition is_space :: "char \<Rightarrow> bool" where
  \<comment> \<open>the ASCII characters that \<^verbatim>\<open>str.strip()\<close> removes: tab, LF, VT, FF, CR, FS, GS, RS, US, space\<close>
  "is_space c = (c \<in> set [CHR 0x09, CHR 0x0A, CHR 0x0B, CHR 0x0C, CHR 0x0D,
                            CHR 0x1C, CHR 0x1D, CHR 0x1E, CHR 0x1F, CHR 0x20])"

definition digit_val :: "char \<Rightarrow> nat option" where
  \<comment> \<open>the value of an ASCII digit\<close>
  "digit_val c = map_of (zip ''0123456789'' [0, 1, 2, 3, 4, 5, 6, 7, 8, 9]) c"

fun digits :: "nat \<Rightarrow> nat \<Rightarrow> string" where
  \<comment> \<open>\<open>digits k n\<close>: the last \<open>k\<close> decimal digits of \<open>n\<close>, zero padded (\<^verbatim>\<open>%02d\<close>, \<^verbatim>\<open>%06d\<close>)\<close>
  "digits 0 n = []"
| "digits (Suc k) n = digits k (n div 10) @ [''0123456789'' ! (n mod 10)]"

subsection \<open>Floating point: binary64, round to nearest, ties to even\<close>

text \<open>
  A Python float is an IEEE 754 binary64 number. A finite one is modelled by its exact
  value, a rational; \<open>fl64\<close> rounds a rational to the nearest binary64 value (53
  significant bits, subnormals below \<open>2\<^sup>-\<^sup>1\<^sup>0\<^sup>2\<^sup>2\<close>, ties to the even significand), as
  every correctly rounded operation of the program does: the conversion of a decimal
  literal, of an integer, a division, \<^verbatim>\<open>round\<close>. Results of magnitude
  \<open>2\<^sup>1\<^sup>0\<^sup>2\<^sup>4\<close> or more are the infinities. NaN cannot arise from the operations below
  on these values and is not part of the type; the sign of zero is not modelled.
\<close>

definition rhe :: "rat \<Rightarrow> int" where
  \<comment> \<open>round to the nearest integer, a tie to the even one\<close>
  "rhe x = (let f = \<lfloor>x\<rfloor>; d = x - of_int f in
     if d < 1/2 then f else if 1/2 < d then f + 1 else if even f then f else f + 1)"

definition ilog2 :: "rat \<Rightarrow> int" where
  \<comment> \<open>for \<open>0 < x\<close>: the \<open>k\<close> with \<open>2\<^sup>k \<le> x < 2\<^sup>k\<^sup>+\<^sup>1\<close>, from the bit lengths of numerator and denominator\<close>
  "ilog2 x = (case quotient_of x of (p, q) \<Rightarrow>
      let d = bitlen p - bitlen q in if 2 powi d \<le> x then d else d - 1)"

definition expo :: "rat \<Rightarrow> int" where
  \<comment> \<open>the exponent of the last bit of the significand; \<open>-1074\<close> on the subnormal range\<close>
  "expo x = max (ilog2 \<bar>x\<bar> - 52) (- 1074)"

definition fl64 :: "rat \<Rightarrow> rat" where
  "fl64 x = (if x = 0 then 0 else of_int (rhe (x / 2 powi expo x)) * 2 powi expo x)"

datatype pyfloat = NInf | Fin rat | PInf

definition to_float :: "rat \<Rightarrow> pyfloat" where
  "to_float x = (let y = fl64 x in
     if 2 ^ 1024 \<le> y then PInf else if y \<le> - (2 ^ 1024) then NInf else Fin y)"

fun fle :: "pyfloat \<Rightarrow> pyfloat \<Rightarrow> bool" where
  \<comment> \<open>\<^verbatim>\<open>a <= b\<close> on floats\<close>
  "fle NInf b = True"
| "fle a PInf = True"
| "fle (Fin a) (Fin b) = (a \<le> b)"
| "fle a b = False"

definition flt :: "pyfloat \<Rightarrow> pyfloat \<Rightarrow> bool" where
  \<comment> \<open>\<^verbatim>\<open>a < b\<close> on floats\<close>
  "flt a b = (\<not> fle b a)"

fun fdiv :: "pyfloat \<Rightarrow> rat \<Rightarrow> pyfloat" where
  \<comment> \<open>\<^verbatim>\<open>a / c\<close> for a positive finite float \<open>c\<close>\<close>
  "fdiv (Fin a) c = to_float (a / c)"
| "fdiv PInf c = PInf"
| "fdiv NInf c = NInf"

fun py_round1 :: "pyfloat \<Rightarrow> pyfloat" where
  \<comment> \<open>\<^verbatim>\<open>round(x, 1)\<close>: the exact value of \<open>x\<close> rounded to one decimal, an exact tie to
      the even digit, and that decimal converted to the nearest float; an infinity
      rounds to itself\<close>
  "py_round1 (Fin a) = to_float (of_int (rhe (a * 10)) / 10)"
| "py_round1 PInf = PInf"
| "py_round1 NInf = NInf"

text \<open>
  A JSON number is an \<^verbatim>\<open>int\<close> when its literal has neither fraction nor exponent, and
  a \<^verbatim>\<open>float\<close>, the literal's value correctly rounded, otherwise.
\<close>

datatype jnum = JInt int | JReal rat

fun jval :: "jnum \<Rightarrow> rat" where
  \<comment> \<open>the number the literal denotes\<close>
  "jval (JInt n) = of_int n"
| "jval (JReal r) = r"

definition finite_or_overflow :: "pyfloat \<Rightarrow> exn + pyfloat" where
  \<comment> \<open>an integer operation whose result does not fit a float raises\<close>
  "finite_or_overflow f = (case f of Fin a \<Rightarrow> Inr (Fin a) | _ \<Rightarrow> Inl OverflowError)"

fun py_float :: "jnum \<Rightarrow> exn + pyfloat" where
  \<comment> \<open>\<^verbatim>\<open>float(x)\<close>, also the conversion of an \<^verbatim>\<open>int\<close> operand of a float division\<close>
  "py_float (JInt n) = finite_or_overflow (to_float (of_int n))"
| "py_float (JReal r) = Inr (to_float r)"

fun div60 :: "jnum \<Rightarrow> exn + pyfloat" where
  \<comment> \<open>\<^verbatim>\<open>x / 60\<close>: the true division of two \<^verbatim>\<open>int\<close>s is the correctly rounded exact
      quotient; a float is divided by \<^verbatim>\<open>60.0\<close>\<close>
  "div60 (JInt n) = finite_or_overflow (to_float (of_int n / 60))"
| "div60 (JReal r) = Inr (fdiv (to_float r) 60)"

definition meters_per_mile :: rat where
  \<comment> \<open>the float that the literal \<^verbatim>\<open>1609.34\<close> denotes\<close>
  "meters_per_mile = fl64 (160934 / 100)"

definition div_mile :: "jnum \<Rightarrow> exn + pyfloat" where
  \<comment> \<open>\<^verbatim>\<open>x / 1609.34\<close>\<close>
  "div_mile x = (case py_float x of Inl e \<Rightarrow> Inl e | Inr f \<Rightarrow> Inr (fdiv f meters_per_mile))"

subsection \<open>Dates and times\<close>

text \<open>
  A timezone-aware \<^verbatim>\<open>datetime\<close> is a record of what the program observes of it: the
  date as \<^verbatim>\<open>%Y-%m-%d\<close> prints it, the weekday name (\<^verbatim>\<open>%A\<close>), the time of day, the
  UTC offset as \<^verbatim>\<open>isoformat\<close> prints it, and the instant it denotes, in microseconds
  since the epoch (the difference of two aware datetimes is the difference of their
  instants). The calendar itself belongs to the \<^verbatim>\<open>datetime\<close> and \<^verbatim>\<open>pytz\<close>
  libraries.
\<close>

record pydatetime =
  date_text :: string
  day_name :: string
  hour :: nat
  minute :: nat
  second :: nat
  microsecond :: nat
  offset_text :: string
  instant :: int

type_synonym pytime = "nat \<times> nat \<times> nat \<times> nat"

definition time_of :: "pydatetime \<Rightarrow> pytime" where
  \<comment> \<open>\<^verbatim>\<open>dt.time()\<close>\<close>
  "time_of dt = (hour dt, minute dt, second dt, microsecond dt)"

fun time_le :: "pytime \<Rightarrow> pytime \<Rightarrow> bool" where
  \<comment> \<open>\<^verbatim>\<open>a <= b\<close> on times: hour, minute, second, microsecond, in that order\<close>
  "time_le (h, m, s, u) (h', m', s', u') =
     (h < h' \<or> (h = h' \<and> (m < m' \<or> (m = m' \<and> (s < s' \<or> (s = s' \<and> u \<le> u'))))))"

definition now_chicago :: "pydatetime \<Rightarrow> pydatetime" where
  \<comment> \<open>the argument is \<^verbatim>\<open>datetime.now(TIMEZONE)\<close>; \<^verbatim>\<open>.replace(second=0, microsecond=0)\<close>\<close>
  "now_chicago t =
     t\<lparr>second := 0, microsecond := 0,
       instant := instant t - (int (second t) * 1000000 + int (microsecond t))\<rparr>"

definition clock_text :: "pydatetime \<Rightarrow> string" where
  \<comment> \<open>\<^verbatim>\<open>%H:%M:%S\<close>\<close>
  "clock_text dt = digits 2 (hour dt) @ '':'' @ digits 2 (minute dt) @ '':'' @ digits 2 (second dt)"

definition stamp :: "pydatetime \<Rightarrow> string" where
  \<comment> \<open>\<^verbatim>\<open>dt.strftime("%Y-%m-%d %H:%M:%S")\<close>\<close>
  "stamp dt = date_text dt @ '' '' @ clock_text dt"

definition isoformat :: "pydatetime \<Rightarrow> string" where
  \<comment> \<open>\<^verbatim>\<open>dt.isoformat()\<close>: the microseconds are printed when they are not zero\<close>
  "isoformat dt = date_text dt @ ''T'' @ clock_text dt
     @ (if microsecond dt = 0 then [] else ''.'' @ digits 6 (microsecond dt)) @ offset_text dt"

text \<open>
  \<^verbatim>\<open>datetime.strptime(s, "%H:%M").time()\<close>. The format is the regular expression
  \<^verbatim>\<open>(2[0-3]|[0-1]\d|\d):([0-5]\d|\d)\<close>, matched at the start of \<^verbatim>\<open>s\<close>; text left
  after the match raises ValueError, as a failed match does. A two-digit alternative
  that matches is followed by a digit, so the one-digit alternative cannot save a match
  that fails after it. Digits are the ASCII digits.
\<close>

fun parse_H :: "string \<Rightarrow> (nat \<times> string) option" where
  "parse_H (a # b # cs) =
     (case (digit_val a, digit_val b) of
        (Some x, Some y) \<Rightarrow>
          if (x = 2 \<and> y \<le> 3) \<or> x \<le> 1 then Some (10 * x + y, cs) else Some (x, b # cs)
      | (Some x, None) \<Rightarrow> Some (x, b # cs)
      | (None, _) \<Rightarrow> None)"
| "parse_H [a] = (case digit_val a of Some x \<Rightarrow> Some (x, []) | None \<Rightarrow> None)"
| "parse_H [] = None"

fun parse_M :: "string \<Rightarrow> (nat \<times> string) option" where
  "parse_M (a # b # cs) =
     (case (digit_val a, digit_val b) of
        (Some x, Some y) \<Rightarrow> if x \<le> 5 then Some (10 * x + y, cs) else Some (x, b # cs)
      | (Some x, None) \<Rightarrow> Some (x, b # cs)
      | (None, _) \<Rightarrow> None)"
| "parse_M [a] = (case digit_val a of Some x \<Rightarrow> Some (x, []) | None \<Rightarrow> None)"
| "parse_M [] = None"

definition strptime_HM :: "string \<Rightarrow> exn + pytime" where
  "strptime_HM s =
     (case parse_H s of
        Some (h, c # rest) \<Rightarrow>
          if c = CHR '':'' then
            (case parse_M rest of
               Some (m, []) \<Rightarrow> Inr (h, m, 0, 0)
             | _ \<Rightarrow> Inl ValueError)
          else Inl ValueError
      | _ \<Rightarrow> Inl ValueError)"

definition total_seconds :: "int \<Rightarrow> pyfloat" where
  \<comment> \<open>\<^verbatim>\<open>timedelta.total_seconds()\<close> of a difference of \<open>us\<close> microseconds: the true
      division of the microseconds by \<^verbatim>\<open>10**6\<close>\<close>
  "total_seconds us = to_float (of_int us / 1000000)"

subsection \<open>The provider's response\<close>

text \<open>
  The response is JSON. A dictionary the program reads with \<^verbatim>\<open>d[k]\<close> or
  \<^verbatim>\<open>d.get(k, default)\<close> is a record whose fields are options: \<open>None\<close> is a
  missing key, on which \<^verbatim>\<open>d[k]\<close> raises KeyError and \<^verbatim>\<open>d.get\<close> takes the
  default. Values of another JSON type than the provider's are outside the model.
\<close>

record step =
  html_instructions :: "string option"

record text_value =
  tv_text :: "string option"
  tv_value :: "jnum option"

record leg =
  duration :: "text_value option"
  duration_in_traffic :: "text_value option"
  distance :: "text_value option"
  steps :: "step list option"

record alternative =
  summary :: "string option"
  legs :: "leg list option"

datatype body =
    NotJson                             \<comment> \<open>\<^verbatim>\<open>response.json()\<close> raises\<close>
  | Doc "alternative list option"       \<comment> \<open>a JSON object, with or without the key \<^verbatim>\<open>routes\<close>\<close>

datatype reply =
    Failed                              \<comment> \<open>\<^verbatim>\<open>requests.get\<close> raises: no response\<close>
  | Response nat body                   \<comment> \<open>the status code and the body\<close>

subsection \<open>The configuration document\<close>

datatype jstr = JNull | JStr string

fun truthy :: "jstr \<Rightarrow> bool" where
  "truthy JNull = False"
| "truthy (JStr s) = (s \<noteq> [])"

fun text_of :: "jstr \<Rightarrow> string" where
  "text_of JNull = []"
| "text_of (JStr s) = s"

record route_doc =
  rt_name :: "string option"
  rt_origin :: "string option"
  rt_destination :: "string option"
  rt_interval :: "jnum option"
  rt_start :: "jstr option"
  rt_end :: "jstr option"

record config_doc =
  cfg_routes :: "route_doc list option"

subsection \<open>The spreadsheet, the clock and the provider\<close>

text \<open>
  A worksheet is its list of rows, a row a list of cells; the spreadsheet maps the tab
  names to the worksheets, and a worksheet object is the name of its tab, so that two
  objects for one tab share its rows. The state also counts the calls made to the
  spreadsheet service and the readings of the clock, and keeps the directions requests
  issued, origin and destination, in order.

  What the program does not control is the environment: the clock, the replies of the
  provider, the calls of the spreadsheet service that fail, the configuration file, and
  \<^verbatim>\<open>datetime.fromisoformat\<close> followed by \<^verbatim>\<open>TIMEZONE.localize\<close> for a naive result
  (\<open>None\<close> is its ValueError). Cells are compared as they were written: the
  conversion by \<^verbatim>\<open>gspread\<close> of a text that looks like a number is not modelled.
\<close>

datatype cell = Text string | Number pyfloat

record world =
  sheets :: "string \<rightharpoonup> cell list list"
  calls :: nat
  reads :: nat
  requested :: "(string \<times> string) list"

record env =
  clock :: "nat \<Rightarrow> pydatetime"
  service_fails :: "nat \<Rightarrow> bool"
  provider :: "nat \<Rightarrow> string \<Rightarrow> string \<Rightarrow> reply"
  config :: "exn + config_doc"
  fromisoformat :: "string \<Rightarrow> pydatetime option"

type_synonym 'a prog = "world \<Rightarrow> (exn + 'a) \<times> world"

definition ret :: "'a \<Rightarrow> 'a prog" where
  "ret x w = (Inr x, w)"

definition raise :: "exn \<Rightarrow> 'a prog" where
  "raise e w = (Inl e, w)"

definition bind :: "'a prog \<Rightarrow> ('a \<Rightarrow> 'b prog) \<Rightarrow> 'b prog" where
  \<comment> \<open>one statement after another: an exception skips what follows\<close>
  "bind m f w = (case m w of (Inl e, w') \<Rightarrow> (Inl e, w') | (Inr x, w') \<Rightarrow> f x w')"

definition call :: "env \<Rightarrow> unit prog" where
  \<comment> \<open>a call of the spreadsheet service: it is counted, and raises when the environment says so\<close>
  "call E w = (if service_fails E (calls w) then Inl APIError else Inr (), w\<lparr>calls := Suc (calls w)\<rparr>)"

definition rows_of :: "world \<Rightarrow> string \<Rightarrow> cell list list" where
  "rows_of w ws = (case sheets w ws of None \<Rightarrow> [] | Some rows \<Rightarrow> rows)"

definition set_rows :: "string \<Rightarrow> cell list list \<Rightarrow> world \<Rightarrow> world" where
  "set_rows ws rows w = w\<lparr>sheets := (sheets w)(ws \<mapsto> rows)\<rparr>"

definition sh_worksheet :: "env \<Rightarrow> string \<Rightarrow> string prog" where
  \<comment> \<open>\<^verbatim>\<open>sh.worksheet(name)\<close>\<close>
  "sh_worksheet E name =
     bind (call E) (\<lambda>_ w. case sheets w name of None \<Rightarrow> (Inl WorksheetNotFound, w) | Some _ \<Rightarrow> (Inr name, w))"

definition sh_add_worksheet :: "env \<Rightarrow> string \<Rightarrow> string prog" where
  \<comment> \<open>\<^verbatim>\<open>sh.add_worksheet(title=name, rows=1000, cols=10)\<close>: a tab without values\<close>
  "sh_add_worksheet E name = bind (call E) (\<lambda>_ w. (Inr name, set_rows name [] w))"

definition ws_get_all_values :: "env \<Rightarrow> string \<Rightarrow> cell list list prog" where
  "ws_get_all_values E ws = bind (call E) (\<lambda>_ w. (Inr (rows_of w ws), w))"

definition ws_clear :: "env \<Rightarrow> string \<Rightarrow> unit prog" where
  "ws_clear E ws = bind (call E) (\<lambda>_ w. (Inr (), set_rows ws [] w))"

definition ws_append_row :: "env \<Rightarrow> string \<Rightarrow> cell list \<Rightarrow> unit prog" where
  "ws_append_row E ws row = bind (call E) (\<lambda>_ w. (Inr (), set_rows ws (rows_of w ws @ [row]) w))"

fun find_row :: "cell list list \<Rightarrow> string \<Rightarrow> nat option" where
  \<comment> \<open>the row of the first cell, in reading order, whose text is the query; rows count from 0 here\<close>
  "find_row [] q = None"
| "find_row (r # rs) q = (if Text q \<in> set r then Some 0 else map_option Suc (find_row rs q))"

definition ws_find :: "env \<Rightarrow> string \<Rightarrow> string \<Rightarrow> nat option prog" where
  "ws_find E ws q = bind (call E) (\<lambda>_ w. (Inr (find_row (rows_of w ws) q), w))"

definition set_col2 :: "cell \<Rightarrow> cell list \<Rightarrow> cell list" where
  \<comment> \<open>the second cell of a row, the row filled with empty cells up to it\<close>
  "set_col2 v row = (row @ replicate (2 - length row) (Text []))[1 := v]"

definition ws_update_cell2 :: "env \<Rightarrow> string \<Rightarrow> nat \<Rightarrow> cell \<Rightarrow> unit prog" where
  \<comment> \<open>\<^verbatim>\<open>ws.update_cell(row, 2, v)\<close>, for a row that \<^verbatim>\<open>find\<close> returned\<close>
  "ws_update_cell2 E ws r v =
     bind (call E) (\<lambda>_ w. (Inr (), set_rows ws ((rows_of w ws)[r := set_col2 v (rows_of w ws ! r)]) w))"

subsection \<open>\<^verbatim>\<open>get_or_create_worksheet\<close>\<close>

definition headers :: "cell list" where
  "headers = map Text [''Timestamp'', ''Day'', ''Route'', ''Duration (min)'', ''Length (miles)'', ''Directions'']"

fun blank_cell :: "cell \<Rightarrow> bool" where
  \<comment> \<open>\<^verbatim>\<open>not cell.strip()\<close>\<close>
  "blank_cell (Text s) = list_all is_space s"
| "blank_cell (Number x) = False"

definition no_values :: "cell list list \<Rightarrow> bool" where
  \<comment> \<open>\<^verbatim>\<open>not existing_values or all(not any(cell.strip() for cell in row) for row in existing_values)\<close>\<close>
  "no_values existing = (existing = [] \<or> list_all (\<lambda>row. \<not> list_ex (\<lambda>c. \<not> blank_cell c) row) existing)"

definition get_or_create_worksheet :: "env \<Rightarrow> string \<Rightarrow> string prog" where
  "get_or_create_worksheet E name =
     bind (\<lambda>w. case sh_worksheet E name w of
                 (Inl WorksheetNotFound, w') \<Rightarrow> sh_add_worksheet E name w'
               | r \<Rightarrow> r) (\<lambda>ws.
     bind (ws_get_all_values E ws) (\<lambda>existing_values.
       if no_values existing_values
       then bind (ws_clear E ws) (\<lambda>_. bind (ws_append_row E ws headers) (\<lambda>_. ret ws))
       else ret ws))"

subsection \<open>\<^verbatim>\<open>get_routes\<close>\<close>

definition first_leg :: "alternative \<Rightarrow> exn + leg" where
  \<comment> \<open>\<^verbatim>\<open>r["legs"][0]\<close>\<close>
  "first_leg r =
     (case legs r of
        None \<Rightarrow> Inl (KeyError ''legs'')
      | Some [] \<Rightarrow> Inl IndexError
      | Some (l # _) \<Rightarrow> Inr l)"

fun print_routes :: "alternative list \<Rightarrow> exn + unit" where
  \<comment> \<open>the loop that prints the alternatives: it reads \<^verbatim>\<open>r["legs"][0]\<close> and
      \<^verbatim>\<open>leg["duration"]["text"]\<close> of each\<close>
  "print_routes [] = Inr ()"
| "print_routes (r # rs) =
     (case first_leg r of
        Inl e \<Rightarrow> Inl e
      | Inr l \<Rightarrow>
          (case duration l of
             None \<Rightarrow> Inl (KeyError ''duration'')
           | Some d \<Rightarrow>
               (case tv_text d of
                  None \<Rightarrow> Inl (KeyError ''text'')
                | Some _ \<Rightarrow> print_routes rs)))"

definition get_routes :: "env \<Rightarrow> string \<Rightarrow> string \<Rightarrow> alternative list prog" where
  "get_routes E origin destination w =
     (let w' = w\<lparr>requested := requested w @ [(origin, destination)]\<rparr> in
      case provider E (length (requested w)) origin destination of
        Failed \<Rightarrow> (Inl RequestException, w')
      | Response status_code b \<Rightarrow>
          if status_code \<noteq> 200 then (Inr [], w')
          else
            (case b of
               NotJson \<Rightarrow> (Inl JSONDecodeError, w')
             | Doc data \<Rightarrow>
                 (let alts = (case data of None \<Rightarrow> [] | Some rs \<Rightarrow> rs) in
                  case print_routes alts of
                    Inl e \<Rightarrow> (Inl e, w')
                  | Inr _ \<Rightarrow> (Inr alts, w'))))"

subsection \<open>The record of an alternative\<close>

definition strip_bold :: "string \<Rightarrow> string" where
  \<comment> \<open>\<^verbatim>\<open>step["html_instructions"].replace("<b>", "").replace("</b>", "")\<close>\<close>
  "strip_bold s = str_replace (str_replace s ''<b>'' []) ''</b>'' []"

fun step_texts :: "step list \<Rightarrow> exn + string list" where
  \<comment> \<open>the generator inside \<^verbatim>\<open>join\<close>: one text per step, in order; the first step
      without \<^verbatim>\<open>html_instructions\<close> raises\<close>
  "step_texts [] = Inr []"
| "step_texts (s # ss) =
     (case html_instructions s of
        None \<Rightarrow> Inl (KeyError ''html_instructions'')
      | Some t \<Rightarrow>
          (case step_texts ss of
             Inl e \<Rightarrow> Inl e
           | Inr ts \<Rightarrow> Inr (strip_bold t # ts)))"

definition turn_by_turn :: "step list \<Rightarrow> exn + string" where
  "turn_by_turn ss =
     (case step_texts ss of Inl e \<Rightarrow> Inl e | Inr ts \<Rightarrow> Inr (str_join arrow ts))"

definition minutes_of :: "jnum \<Rightarrow> exn + pyfloat" where
  \<comment> \<open>\<^verbatim>\<open>round(v / 60, 1)\<close>\<close>
  "minutes_of v = (case div60 v of Inl e \<Rightarrow> Inl e | Inr q \<Rightarrow> Inr (py_round1 q))"

definition miles_of :: "jnum \<Rightarrow> exn + pyfloat" where
  \<comment> \<open>\<^verbatim>\<open>round(v / 1609.34, 1)\<close>\<close>
  "miles_of v = (case div_mile v of Inl e \<Rightarrow> Inl e | Inr q \<Rightarrow> Inr (py_round1 q))"

definition duration_min :: "leg \<Rightarrow> exn + pyfloat" where
  \<comment> \<open>\<^verbatim>\<open>round(leg.get("duration_in_traffic", leg["duration"])["value"] / 60, 1)\<close>: the
      default \<^verbatim>\<open>leg["duration"]\<close> is evaluated first, also when it is not used\<close>
  "duration_min l =
     (case duration l of
        None \<Rightarrow> Inl (KeyError ''duration'')
      | Some base \<Rightarrow>
          (case tv_value (case duration_in_traffic l of None \<Rightarrow> base | Some traffic \<Rightarrow> traffic) of
             None \<Rightarrow> Inl (KeyError ''value'')
           | Some v \<Rightarrow> minutes_of v))"

definition distance_mi :: "leg \<Rightarrow> exn + pyfloat" where
  \<comment> \<open>\<^verbatim>\<open>round(leg["distance"]["value"] / 1609.34, 1)\<close>\<close>
  "distance_mi l =
     (case distance l of
        None \<Rightarrow> Inl (KeyError ''distance'')
      | Some d \<Rightarrow>
          (case tv_value d of
             None \<Rightarrow> Inl (KeyError ''value'')
           | Some v \<Rightarrow> miles_of v))"

definition make_row :: "pydatetime \<Rightarrow> alternative \<Rightarrow> exn + cell list" where
  \<comment> \<open>the body of the loop over the alternatives, up to the row it appends; the link
      \<^verbatim>\<open>maps_link\<close> is computed and not used\<close>
  "make_row now r =
     (case first_leg r of
        Inl e \<Rightarrow> Inl e
      | Inr l \<Rightarrow>
     (case duration_min l of
        Inl e \<Rightarrow> Inl e
      | Inr dur \<Rightarrow>
     (case distance_mi l of
        Inl e \<Rightarrow> Inl e
      | Inr miles \<Rightarrow>
     (case turn_by_turn (case steps l of None \<Rightarrow> [] | Some ss \<Rightarrow> ss) of
        Inl e \<Rightarrow> Inl e
      | Inr directions \<Rightarrow>
          Inr [Text (stamp now), Text (day_name now),
               Text (case summary r of None \<Rightarrow> ''N/A'' | Some s \<Rightarrow> s),
               Number dur, Number miles, Text directions]))))"

subsection \<open>\<^verbatim>\<open>get_last_run_time\<close> and \<^verbatim>\<open>update_last_run_time\<close>\<close>

definition row_get :: "cell list \<Rightarrow> cell list \<Rightarrow> string \<Rightarrow> cell option" where
  \<comment> \<open>\<^verbatim>\<open>row.get(k)\<close> on a record of \<^verbatim>\<open>get_all_records()\<close>: the cell under the header
      \<^verbatim>\<open>k\<close>, under the last such header if there are several; a short row is filled
      with empty cells\<close>
  "row_get keys row k =
     map_of (rev (zip keys (row @ replicate (length keys - length row) (Text [])))) (Text k)"

fun scan_last_run :: "env \<Rightarrow> cell list \<Rightarrow> cell list list \<Rightarrow> string \<Rightarrow> pydatetime option" where
  \<comment> \<open>the loop over the records: the first record of the route with a value decides; a
      value that does not parse gives \<open>None\<close>, an empty one is passed over\<close>
  "scan_last_run E keys [] route_name = None"
| "scan_last_run E keys (row # rows) route_name =
     (if row_get keys row ''Route'' = Some (Text route_name) then
        (case row_get keys row ''LastRun'' of
           None \<Rightarrow> scan_last_run E keys rows route_name
         | Some (Text val) \<Rightarrow>
             if val = [] then scan_last_run E keys rows route_name else fromisoformat E val
         | Some (Number x) \<Rightarrow>
             if x = Fin 0 then scan_last_run E keys rows route_name else None)
      else scan_last_run E keys rows route_name)"

definition last_run_of :: "env \<Rightarrow> cell list list \<Rightarrow> string \<Rightarrow> pydatetime option" where
  \<comment> \<open>the first row of the worksheet holds the headers, the other rows are the records\<close>
  "last_run_of E rows route_name =
     (case rows of [] \<Rightarrow> None | keys # records \<Rightarrow> scan_last_run E keys records route_name)"

definition get_last_run_time :: "env \<Rightarrow> string \<Rightarrow> string \<Rightarrow> world \<Rightarrow> pydatetime option \<times> world" where
  \<comment> \<open>every exception is caught: the function returns \<open>None\<close> then\<close>
  "get_last_run_time E ws_log route_name w =
     (case call E w of
        (Inl e, w') \<Rightarrow> (None, w')
      | (Inr _, w') \<Rightarrow> (last_run_of E (rows_of w' ws_log) route_name, w'))"

definition update_last_run_time :: "env \<Rightarrow> string \<Rightarrow> string \<Rightarrow> pydatetime \<Rightarrow> world \<Rightarrow> world" where
  \<comment> \<open>every exception is caught and the function returns nothing: the result is the state\<close>
  "update_last_run_time E ws_log route_name timestamp w =
     snd (bind (ws_find E ws_log route_name) (\<lambda>found.
            case found of
              Some r \<Rightarrow> ws_update_cell2 E ws_log r (Text (isoformat timestamp))
            | None \<Rightarrow> ws_append_row E ws_log [Text route_name, Text (isoformat timestamp)]) w)"

subsection \<open>\<^verbatim>\<open>log_route_to_sheet\<close>\<close>

text \<open>
  The function returns nothing; the model returns the path it took, which the message it
  prints names.
\<close>

datatype outcome = SkipDay | SkipWindow | SkipInterval | NoRoutes | Logged

definition day_skipped :: "pydatetime \<Rightarrow> string list option \<Rightarrow> bool" where
  \<comment> \<open>\<^verbatim>\<open>days and now.strftime("%A") not in days\<close>\<close>
  "day_skipped now days = (case days of None \<Rightarrow> False | Some ds \<Rightarrow> ds \<noteq> [] \<and> day_name now \<notin> set ds)"

definition window_skipped :: "pydatetime \<Rightarrow> jstr \<Rightarrow> jstr \<Rightarrow> exn + bool" where
  \<comment> \<open>\<^verbatim>\<open>if start and end:\<close> \<dots> \<^verbatim>\<open>if not (start_t <= t <= end_t)\<close>\<close>
  "window_skipped now start_s end_s =
     (if truthy start_s \<and> truthy end_s then
        (case strptime_HM (text_of start_s) of
           Inl e \<Rightarrow> Inl e
         | Inr start_t \<Rightarrow>
             (case strptime_HM (text_of end_s) of
                Inl e \<Rightarrow> Inl e
              | Inr end_t \<Rightarrow> Inr (\<not> (time_le start_t (time_of now) \<and> time_le (time_of now) end_t))))
      else Inr False)"

definition interval_skipped :: "pydatetime \<Rightarrow> pydatetime option \<Rightarrow> jnum \<Rightarrow> exn + bool" where
  \<comment> \<open>\<^verbatim>\<open>if last_dt:\<close> \<^verbatim>\<open>diff = (now - last_dt).total_seconds() / 60.0\<close>,
      \<^verbatim>\<open>if diff < float(interval)\<close>\<close>
  "interval_skipped now last_dt interval =
     (case last_dt of
        None \<Rightarrow> Inr False
      | Some l \<Rightarrow>
          (case py_float interval of
             Inl e \<Rightarrow> Inl e
           | Inr f \<Rightarrow> Inr (flt (fdiv (total_seconds (instant now - instant l)) 60) f)))"

fun log_rows :: "env \<Rightarrow> string \<Rightarrow> pydatetime \<Rightarrow> alternative list \<Rightarrow> unit prog" where
  \<comment> \<open>\<^verbatim>\<open>for r in routes:\<close> \<dots> \<^verbatim>\<open>ws.append_row([...])\<close>\<close>
  "log_rows E ws now [] = ret ()"
| "log_rows E ws now (r # rs) =
     (case make_row now r of
        Inl e \<Rightarrow> raise e
      | Inr row \<Rightarrow> bind (ws_append_row E ws row) (\<lambda>_. log_rows E ws now rs))"

definition log_route_to_sheet ::
  "env \<Rightarrow> string \<Rightarrow> string \<Rightarrow> string \<Rightarrow> string \<Rightarrow> string \<Rightarrow> jnum \<Rightarrow> string list option \<Rightarrow> jstr \<Rightarrow> jstr
     \<Rightarrow> outcome prog" where
  "log_route_to_sheet E ws ws_log route_name origin destination interval days start_s end_s w0 =
     (let now = now_chicago (clock E (reads w0));
          w = w0\<lparr>reads := Suc (reads w0)\<rparr>
      in
      if day_skipped now days then (Inr SkipDay, w)
      else
        (case window_skipped now start_s end_s of
           Inl e \<Rightarrow> (Inl e, w)
         | Inr True \<Rightarrow> (Inr SkipWindow, w)
         | Inr False \<Rightarrow>
        (case get_last_run_time E ws_log route_name w of (last_dt, w1) \<Rightarrow>
        (case interval_skipped now last_dt interval of
           Inl e \<Rightarrow> (Inl e, w1)
         | Inr True \<Rightarrow> (Inr SkipInterval, w1)
         | Inr False \<Rightarrow>
        (case get_routes E origin destination w1 of
           (Inl e, w2) \<Rightarrow> (Inl e, w2)
         | (Inr alts, w2) \<Rightarrow>
             if alts = [] then (Inr NoRoutes, w2)
             else
               (case log_rows E ws now alts w2 of
                  (Inl e, w3) \<Rightarrow> (Inl e, w3)
                | (Inr _, w3) \<Rightarrow> (Inr Logged, update_last_run_time E ws_log route_name now w3)))))))"

subsection \<open>\<^verbatim>\<open>run_commute_tracker\<close> and \<^verbatim>\<open>main\<close>\<close>

definition process_route :: "env \<Rightarrow> string \<Rightarrow> route_doc \<Rightarrow> outcome prog" where
  \<comment> \<open>the body of the loop over \<^verbatim>\<open>config["routes"]\<close>; the arguments of the call are
      evaluated in the order they are written\<close>
  "process_route E ws_log route =
     (case rt_name route of
        None \<Rightarrow> raise (KeyError ''name'')
      | Some name \<Rightarrow>
          bind (get_or_create_worksheet E (str_replace name ''/'' ''-'')) (\<lambda>ws.
            case rt_origin route of
              None \<Rightarrow> raise (KeyError ''origin'')
            | Some origin \<Rightarrow>
            (case rt_destination route of
              None \<Rightarrow> raise (KeyError ''destination'')
            | Some destination \<Rightarrow>
            (case rt_start route of
              None \<Rightarrow> raise (KeyError ''start'')
            | Some start_s \<Rightarrow>
            (case rt_end route of
              None \<Rightarrow> raise (KeyError ''end'')
            | Some end_s \<Rightarrow>
                log_route_to_sheet E ws ws_log name origin destination
                  (case rt_interval route of None \<Rightarrow> JInt 15 | Some i \<Rightarrow> i)
                  None start_s end_s)))))"

text \<open>
  The loop returns the outcomes of the routes it has processed and the exception that
  ended it, if one did.
\<close>

fun run_routes :: "env \<Rightarrow> string \<Rightarrow> route_doc list \<Rightarrow> world \<Rightarrow> (outcome list \<times> exn option) \<times> world" where
  "run_routes E ws_log [] w = (([], None), w)"
| "run_routes E ws_log (route # rest) w =
     (case process_route E ws_log route w of
        (Inl e, w') \<Rightarrow> (([], Some e), w')
      | (Inr out, w') \<Rightarrow>
          (case run_routes E ws_log rest w' of
             ((outs, x), w'') \<Rightarrow> ((out # outs, x), w'')))"

definition run_commute_tracker :: "env \<Rightarrow> world \<Rightarrow> (outcome list \<times> exn option) \<times> world" where
  \<comment> \<open>obtaining the client and opening the spreadsheet \<^verbatim>\<open>CommuteData\<close> are one call of
      the service\<close>
  "run_commute_tracker E w =
     (case call E w of
        (Inl e, w1) \<Rightarrow> (([], Some e), w1)
      | (Inr _, w1) \<Rightarrow>
     (case get_or_create_worksheet E ''LastRunLog'' w1 of
        (Inl e, w2) \<Rightarrow> (([], Some e), w2)
      | (Inr ws_log, w2) \<Rightarrow>
     (case config E of
        Inl e \<Rightarrow> (([], Some e), w2)
      | Inr cfg \<Rightarrow>
     (case cfg_routes cfg of
        None \<Rightarrow> (([], Some (KeyError ''routes'')), w2)
      | Some rs \<Rightarrow> run_routes E ws_log rs w2))))"

datatype request = NoRequest | Request string

datatype response =
    NoResponse            \<comment> \<open>the local run returns nothing\<close>
  | Executed              \<comment> \<open>status 200\<close>
  | MethodNotAllowed      \<comment> \<open>status 405\<close>
  | Error exn             \<comment> \<open>status 500, with the text of the exception\<close>

definition main :: "env \<Rightarrow> request \<Rightarrow> world \<Rightarrow> response \<times> world" where
  "main E request w =
     (case request of
        NoRequest \<Rightarrow>
          (case run_commute_tracker E w of
             ((_, Some e), w') \<Rightarrow> (Error e, w')
           | ((_, None), w') \<Rightarrow> (NoResponse, w'))
      | Request method \<Rightarrow>
          if method = ''GET'' then
            (case run_commute_tracker E w of
               ((_, Some e), w') \<Rightarrow> (Error e, w')
             | ((_, None), w') \<Rightarrow> (Executed, w'))
          else (MethodNotAllowed, w))"

subsection \<open>What the specification says of the directions text\<close>

text \<open>
  The specification's wording, for comparison with \<^const>\<open>turn_by_turn\<close>: the
  instruction of every step with its HTML markup stripped, that is with every tag, from
  \<^verbatim>\<open><\<close> to the next \<^verbatim>\<open>>\<close>, removed.
\<close>

fun spec_strip_html :: "bool \<Rightarrow> string \<Rightarrow> string" where
  \<comment> \<open>the flag says that the scan is inside a tag\<close>
  "spec_strip_html inside [] = []"
| "spec_strip_html inside (c # cs) =
     (if inside then spec_strip_html (c \<noteq> CHR ''>'') cs
      else if c = CHR ''<'' then spec_strip_html True cs
      else c # spec_strip_html False cs)"

definition spec_directions_text :: "string list \<Rightarrow> string" where
  "spec_directions_text instructions = str_join arrow (map (spec_strip_html False) instructions)"

subsection \<open>Concrete inputs\<close>

text \<open>
  A reading of the clock on Monday 4 March 2024 at 08:30:17.000005 in Chicago (UTC-6),
  and the run of the same day at 08:00 as \<^verbatim>\<open>LastRunLog\<close> records it.
\<close>

definition monday_0830 :: pydatetime where
  "monday_0830 = \<lparr>date_text = ''2024-03-04'', day_name = ''Monday'', hour = 8, minute = 30,
     second = 17, microsecond = 5, offset_text = ''-06:00'', instant = 1709562617000005\<rparr>"

definition monday_0800 :: pydatetime where
  "monday_0800 = \<lparr>date_text = ''2024-03-04'', day_name = ''Monday'', hour = 8, minute = 0,
     second = 0, microsecond = 0, offset_text = ''-06:00'', instant = 1709560800000000\<rparr>"

definition monday_0825 :: pydatetime where
  "monday_0825 = \<lparr>date_text = ''2024-03-04'', day_name = ''Monday'', hour = 8, minute = 25,
     second = 0, microsecond = 0, offset_text = ''-06:00'', instant = 1709562300000000\<rparr>"

definition monday_0600 :: pydatetime where
  "monday_0600 = \<lparr>date_text = ''2024-03-04'', day_name = ''Monday'', hour = 6, minute = 0,
     second = 42, microsecond = 0, offset_text = ''-06:00'', instant = 1709553642000000\<rparr>"

text \<open>
  The alternative of the specification's example: summary I-90, 1800 s without a traffic
  value, 16093.4 m, two steps. Then one with a traffic value.
\<close>

definition leg_i90 :: leg where
  "leg_i90 = \<lparr>duration = Some \<lparr>tv_text = Some ''30 mins'', tv_value = Some (JInt 1800)\<rparr>,
     duration_in_traffic = None,
     distance = Some \<lparr>tv_text = Some ''10.0 mi'', tv_value = Some (JReal (160934 / 10))\<rparr>,
     steps = Some [\<lparr>html_instructions = Some ''Turn <b>left</b>''\<rparr>,
                   \<lparr>html_instructions = Some ''Merge''\<rparr>]\<rparr>"

definition alt_i90 :: alternative where
  "alt_i90 = \<lparr>summary = Some ''I-90'', legs = Some [leg_i90]\<rparr>"

definition leg_traffic :: leg where
  "leg_traffic = \<lparr>duration = Some \<lparr>tv_text = Some ''10 mins'', tv_value = Some (JInt 600)\<rparr>,
     duration_in_traffic = Some \<lparr>tv_text = Some ''15 mins'', tv_value = Some (JInt 900)\<rparr>,
     distance = Some \<lparr>tv_text = Some ''1.0 mi'', tv_value = Some (JReal (160934 / 100))\<rparr>,
     steps = None\<rparr>"

definition alt_traffic :: alternative where
  "alt_traffic = \<lparr>summary = None, legs = Some [leg_traffic]\<rparr>"

definition route_home :: route_doc where
  "route_home = \<lparr>rt_name = Some ''Home/Work'', rt_origin = Some ''A'', rt_destination = Some ''B'',
     rt_interval = None, rt_start = Some JNull, rt_end = Some JNull\<rparr>"

definition route_gym :: route_doc where
  "route_gym = \<lparr>rt_name = Some ''Gym'', rt_origin = Some ''C'', rt_destination = Some ''D'',
     rt_interval = Some (JInt 30), rt_start = Some (JStr ''06:00''), rt_end = Some (JStr ''09:00'')\<rparr>"

definition route_no_window :: route_doc where
  \<comment> \<open>a route document without \<^verbatim>\<open>interval\<close>, \<^verbatim>\<open>start\<close> and \<^verbatim>\<open>end\<close>\<close>
  "route_no_window = \<lparr>rt_name = Some ''Home'', rt_origin = Some ''A'', rt_destination = Some ''B'',
     rt_interval = None, rt_start = None, rt_end = None\<rparr>"




definition empty_world :: world where
  "empty_world = \<lparr>sheets = Map.empty, calls = 0, reads = 0, requested = []\<rparr>"

definition world_of :: "string \<Rightarrow> string \<Rightarrow> world" where
  \<comment> \<open>a spreadsheet whose \<^verbatim>\<open>LastRunLog\<close> records one run of one route\<close>
  "world_of route_name last_run =
     \<lparr>sheets = [''LastRunLog'' \<mapsto> [ [Text ''Route'', Text ''LastRun''],
                                    [Text route_name, Text last_run] ] ],
      calls = 0, reads = 0, requested = []\<rparr>"

definition parse_iso :: "string \<Rightarrow> pydatetime option" where
  \<comment> \<open>\<^verbatim>\<open>fromisoformat\<close> on the timestamps of the examples; the third one has no
      offset and is localized to Chicago\<close>
  "parse_iso s =
     (if s = ''2024-03-04T08:00:00-06:00'' then Some monday_0800
      else if s = ''2024-03-04T08:25:00-06:00'' then Some monday_0825
      else if s = ''2024-03-04 08:30:00'' then Some (now_chicago monday_0830)
      else None)"

definition env_of :: "pydatetime \<Rightarrow> (nat \<Rightarrow> reply) \<Rightarrow> route_doc list \<Rightarrow> env" where
  \<comment> \<open>an environment in which no call of the spreadsheet service fails: the clock
      reading, the reply to the \<open>k\<close>-th request, the routes of the configuration\<close>
  "env_of t replies rs = \<lparr>clock = (\<lambda>_. t), service_fails = (\<lambda>_. False),
     provider = (\<lambda>k origin destination. replies k),
     config = Inr \<lparr>cfg_routes = Some rs\<rparr>, fromisoformat = parse_iso\<rparr>"

section \<open>Floating point: rounding is monotonic and exact on representable values\<close>

lemma rhe_of_int: "rhe (of_int n) = n"
  by (simp add: rhe_def)

lemma rhe_mono: "x \<le> y \<Longrightarrow> rhe x \<le> rhe y"
proof -
  assume xy: "x \<le> y"
  have fl: "\<lfloor>x\<rfloor> \<le> \<lfloor>y\<rfloor>" using xy by (rule floor_mono)
  show ?thesis
  proof (cases "\<lfloor>x\<rfloor> = \<lfloor>y\<rfloor>")
    case True
    then have "x - of_int \<lfloor>x\<rfloor> \<le> y - of_int \<lfloor>y\<rfloor>" using xy by simp
    then show ?thesis using True by (auto simp: rhe_def Let_def)
  next
    case False
    then have "\<lfloor>x\<rfloor> + 1 \<le> \<lfloor>y\<rfloor>" using fl by simp
    moreover have "rhe x \<le> \<lfloor>x\<rfloor> + 1" by (auto simp: rhe_def Let_def)
    moreover have "\<lfloor>y\<rfloor> \<le> rhe y" by (auto simp: rhe_def Let_def)
    ultimately show ?thesis by linarith
  qed
qed

lemma rhe_uminus: "rhe (- x) = - rhe x"
proof (cases "x = of_int \<lfloor>x\<rfloor>")
  case True
  then obtain n where "x = of_int n" ..
  then have "- x = of_int (- n)" by simp
  then show ?thesis using \<open>x = of_int n\<close> rhe_of_int by metis
next
  case False
  then have lt: "of_int \<lfloor>x\<rfloor> < x" using of_int_floor_le [of x] by linarith
  have "\<lfloor>- x\<rfloor> = - \<lfloor>x\<rfloor> - 1"
    using lt floor_correct [of x] by (intro floor_unique) auto
  then show ?thesis
    using lt by (auto simp: rhe_def Let_def)
qed

lemma ilog2_bounds:
  assumes "0 < x"
  shows "2 powi ilog2 x \<le> x" and "x < 2 powi (ilog2 x + 1)"
proof -
  obtain p q where pq: "quotient_of x = (p, q)" by (cases "quotient_of x")
  then have q: "0 < q" and x: "x = of_int p / of_int q"
    by (auto dest: quotient_of_denom_pos quotient_of_div)
  with assms have p: "0 < p" by (simp add: zero_less_divide_iff)
  define bp where "bp = bitlen p"
  define bq where "bq = bitlen q"
  have bp: "1 \<le> bp" and bq: "1 \<le> bq"
    using p q bitlen_eq_zero_iff [of p] bitlen_eq_zero_iff [of q] bitlen_nonneg [of p] bitlen_nonneg [of q]
    by (auto simp: bp_def bq_def)
  have "2 ^ nat (bp - 1) \<le> p" "p < 2 ^ nat bp" "2 ^ nat (bq - 1) \<le> q" "q < 2 ^ nat bq"
    using bitlen_bounds [OF p] bitlen_bounds [OF q] by (auto simp: bp_def bq_def)
  then have "(of_int (2 ^ nat (bp - 1)) :: rat) \<le> of_int p" "(of_int p :: rat) < of_int (2 ^ nat bp)"
    "(of_int (2 ^ nat (bq - 1)) :: rat) \<le> of_int q" "(of_int q :: rat) < of_int (2 ^ nat bq)"
    by (simp_all only: of_int_le_iff of_int_less_iff)
  then have P: "(2::rat) powi (bp - 1) \<le> of_int p" "(of_int p :: rat) < 2 powi bp"
    and Q: "(2::rat) powi (bq - 1) \<le> of_int q" "(of_int q :: rat) < 2 powi bq"
    using bp bq by (simp_all add: power_int_def)
  have qpos: "(0::rat) < of_int q" using q by simp
  have up: "x < 2 powi (bp - bq + 1)"
  proof -
    have "x < 2 powi bp / of_int q"
      unfolding x using P(2) qpos by (simp add: divide_strict_right_mono)
    also have "\<dots> \<le> 2 powi bp / 2 powi (bq - 1)"
      using Q(1) by (intro divide_left_mono) (auto simp: zero_less_power_int intro!: mult_pos_pos qpos)
    also have "\<dots> = 2 powi (bp - (bq - 1))"
      by (simp add: power_int_diff)
    finally show ?thesis by (simp add: algebra_simps)
  qed
  have lo: "2 powi (bp - bq - 1) \<le> x"
  proof -
    have "(2::rat) powi (bp - bq - 1) = 2 powi ((bp - 1) - bq)" by (simp add: algebra_simps)
    also have "\<dots> = 2 powi (bp - 1) / 2 powi bq" by (simp add: power_int_diff)
    also have "\<dots> \<le> of_int p / 2 powi bq"
      by (intro divide_right_mono P(1)) (simp add: zero_less_power_int less_imp_le)
    also have "\<dots> \<le> of_int p / of_int q"
      using Q(2) p qpos by (intro divide_left_mono) (auto simp: zero_less_power_int less_imp_le intro!: mult_pos_pos)
    finally show ?thesis unfolding x .
  qed
  have il: "ilog2 x = (if 2 powi (bp - bq) \<le> x then bp - bq else bp - bq - 1)"
    by (simp add: ilog2_def pq Let_def bp_def bq_def)
  show "2 powi ilog2 x \<le> x" using lo by (simp add: il)
  show "x < 2 powi (ilog2 x + 1)" using up by (auto simp: il not_le)
qed

lemma ilog2_mono:
  assumes "0 < x" "x \<le> y"
  shows "ilog2 x \<le> ilog2 y"
proof (rule ccontr)
  assume "\<not> ilog2 x \<le> ilog2 y"
  then have "ilog2 y + 1 \<le> ilog2 x" by simp
  then have "(2::rat) powi (ilog2 y + 1) \<le> 2 powi ilog2 x"
    by (intro power_int_increasing) auto
  also have "\<dots> \<le> x" using assms(1) by (rule ilog2_bounds)
  finally have "2 powi (ilog2 y + 1) \<le> y" using assms(2) by simp
  moreover have "y < 2 powi (ilog2 y + 1)" using assms by (intro ilog2_bounds) simp
  ultimately show False by simp
qed


lemma rhe_nonneg: "0 \<le> x \<Longrightarrow> 0 \<le> rhe x"
  using rhe_mono [of 0 x] rhe_of_int [of 0] by simp

lemma rhe_ge: "of_int n \<le> x \<Longrightarrow> n \<le> rhe x"
  using rhe_mono [of "of_int n" x] by (simp add: rhe_of_int)

lemma rhe_le: "x \<le> of_int n \<Longrightarrow> rhe x \<le> n"
  using rhe_mono [of x "of_int n"] by (simp add: rhe_of_int)

lemma fl64_expo: "x \<noteq> 0 \<Longrightarrow> fl64 x = of_int (rhe (x / 2 powi expo x)) * 2 powi expo x"
  by (simp add: fl64_def)

lemma expo_uminus: "expo (- x) = expo x"
  by (simp add: expo_def)

lemma fl64_uminus: "fl64 (- x) = - fl64 x"
  by (simp add: fl64_def expo_uminus rhe_uminus)

lemma fl64_nonneg: "0 \<le> x \<Longrightarrow> 0 \<le> fl64 x"
  by (simp add: fl64_def rhe_nonneg zero_less_power_int less_imp_le)

lemma fl64_upper:
  assumes "0 < x"
  shows "fl64 x \<le> 2 powi (expo x + 53)"
proof -
  have p: "(0::rat) < 2 powi expo x" by (simp add: zero_less_power_int)
  have "x < 2 powi (ilog2 x + 1)" using assms by (rule ilog2_bounds)
  also have "\<dots> \<le> 2 powi (expo x + 53)"
    using assms by (intro power_int_increasing) (auto simp: expo_def)
  also have "\<dots> = 2 powi 53 * 2 powi expo x"
    by (simp add: power_int_add mult.commute)
  finally have "x / 2 powi expo x \<le> 2 powi 53"
    using p by (simp add: pos_divide_le_eq less_imp_le)
  also have "(2::rat) powi 53 = of_int (2 ^ 53)" by simp
  finally have "rhe (x / 2 powi expo x) \<le> 2 ^ 53" by (rule rhe_le)
  then have "(of_int (rhe (x / 2 powi expo x)) :: rat) \<le> of_int (2 ^ 53)"
    by (simp only: of_int_le_iff)
  then have "(of_int (rhe (x / 2 powi expo x)) :: rat) * 2 powi expo x \<le> 2 powi 53 * 2 powi expo x"
    using p by (intro mult_right_mono) (simp_all add: less_imp_le)
  also have "\<dots> = 2 powi (expo x + 53)" by (simp add: power_int_add mult.commute)
  finally show ?thesis using assms by (simp add: fl64_expo)
qed

lemma fl64_lower:
  assumes "0 < x" "- 1074 < expo x"
  shows "2 powi (expo x + 52) \<le> fl64 x"
proof -
  have p: "(0::rat) < 2 powi expo x" by (simp add: zero_less_power_int)
  have e: "expo x = ilog2 x - 52" using assms by (simp add: expo_def)
  have "(2::rat) powi 52 * 2 powi expo x = 2 powi (expo x + 52)"
    by (simp add: power_int_add mult.commute)
  also have "\<dots> = 2 powi ilog2 x" by (simp add: e)
  also have "\<dots> \<le> x" using assms(1) by (rule ilog2_bounds)
  finally have "2 powi 52 \<le> x / 2 powi expo x"
    using p by (simp add: pos_le_divide_eq)
  moreover have "(2::rat) powi 52 = of_int (2 ^ 52)" by simp
  ultimately have "of_int (2 ^ 52) \<le> x / 2 powi expo x" by simp
  then have "2 ^ 52 \<le> rhe (x / 2 powi expo x)" by (rule rhe_ge)
  then have "(of_int (2 ^ 52) :: rat) \<le> of_int (rhe (x / 2 powi expo x))"
    by (simp only: of_int_le_iff)
  then have A: "(2::rat) powi 52 * 2 powi expo x \<le> of_int (rhe (x / 2 powi expo x)) * 2 powi expo x"
    using p by (intro mult_right_mono) (simp_all add: less_imp_le)
  have B: "(2::rat) powi 52 * 2 powi expo x = 2 powi (expo x + 52)"
    by (simp add: power_int_add mult.commute)
  have C: "fl64 x = of_int (rhe (x / 2 powi expo x)) * 2 powi expo x"
    using assms(1) by (intro fl64_expo) simp
  from A show ?thesis unfolding B C .
qed

lemma expo_mono: "0 < x \<Longrightarrow> x \<le> y \<Longrightarrow> expo x \<le> expo y"
  using ilog2_mono [of x y] by (simp add: expo_def)

lemma fl64_mono_pos:
  assumes "0 < x" "x \<le> y"
  shows "fl64 x \<le> fl64 y"
proof (cases "expo x = expo y")
  case True
  have p: "(0::rat) < 2 powi expo y" by (simp add: zero_less_power_int)
  have "x / 2 powi expo y \<le> y / 2 powi expo y"
    using assms(2) p by (simp add: divide_right_mono less_imp_le)
  then have "rhe (x / 2 powi expo y) \<le> rhe (y / 2 powi expo y)" by (rule rhe_mono)
  then have "(of_int (rhe (x / 2 powi expo y)) :: rat) \<le> of_int (rhe (y / 2 powi expo y))"
    by (simp only: of_int_le_iff)
  then have "(of_int (rhe (x / 2 powi expo y)) :: rat) * 2 powi expo y
      \<le> of_int (rhe (y / 2 powi expo y)) * 2 powi expo y"
    using p by (intro mult_right_mono) (simp_all add: less_imp_le)
  then show ?thesis using assms True by (simp add: fl64_expo)
next
  case False
  have y: "0 < y" using assms by simp
  have lt: "expo x + 1 \<le> expo y" using False expo_mono [OF assms] by simp
  moreover have "- 1074 \<le> expo x" by (simp add: expo_def)
  ultimately have "- 1074 < expo y" by simp
  then have "2 powi (expo y + 52) \<le> fl64 y" using y by (intro fl64_lower)
  moreover have "fl64 x \<le> 2 powi (expo x + 53)" using assms(1) by (rule fl64_upper)
  moreover have "(2::rat) powi (expo x + 53) \<le> 2 powi (expo y + 52)"
    using lt by (intro power_int_increasing) auto
  ultimately show ?thesis by linarith
qed

lemma fl64_mono:
  assumes "x \<le> y"
  shows "fl64 x \<le> fl64 y"
proof -
  consider "0 < x" | "x \<le> 0" "0 \<le> y" | "y < 0" using assms by linarith
  then show ?thesis
  proof cases
    case 1
    then show ?thesis using assms by (rule fl64_mono_pos)
  next
    case 2
    have "fl64 x = - fl64 (- x)" by (simp add: fl64_uminus)
    moreover have "0 \<le> fl64 (- x)" using 2 by (intro fl64_nonneg) simp
    moreover have "0 \<le> fl64 y" using 2 by (intro fl64_nonneg)
    ultimately show ?thesis by linarith
  next
    case 3
    then have "fl64 (- y) \<le> fl64 (- x)" using assms by (intro fl64_mono_pos) simp_all
    then show ?thesis by (simp add: fl64_uminus)
  qed
qed

lemma ilog2_less:
  assumes "0 < x" "x < 2 powi k"
  shows "ilog2 x < k"
proof (rule ccontr)
  assume "\<not> ilog2 x < k"
  then have "(2::rat) powi k \<le> 2 powi ilog2 x"
    by (intro power_int_increasing) auto
  also have "\<dots> \<le> x" using assms(1) by (rule ilog2_bounds)
  finally show False using assms(2) by simp
qed

lemma fl64_exact:
  assumes m: "\<bar>m\<bar> < 2 ^ 53" and e: "- 1074 \<le> e"
  shows "fl64 (of_int m * 2 powi e) = of_int m * 2 powi e"
proof (cases "m = 0")
  case True
  then show ?thesis by (simp add: fl64_def)
next
  case False
  define x :: rat where "x = of_int m * 2 powi e"
  have pe: "(0::rat) < 2 powi e" by (simp add: zero_less_power_int)
  have x0: "x \<noteq> 0" using False pe by (simp add: x_def)
  have ax: "\<bar>x\<bar> = of_int \<bar>m\<bar> * 2 powi e"
    using pe by (simp add: x_def abs_mult)
  have "(of_int \<bar>m\<bar> :: rat) < of_int (2 ^ 53)" using m by (simp only: of_int_less_iff)
  then have "\<bar>x\<bar> < of_int (2 ^ 53) * 2 powi e"
    unfolding ax using pe by (intro mult_strict_right_mono)
  also have "(of_int (2 ^ 53) :: rat) * 2 powi e = 2 powi (53 + e)"
    by (simp add: power_int_add)
  finally have "ilog2 \<bar>x\<bar> < 53 + e" using x0 by (intro ilog2_less) simp_all
  then have le: "expo x \<le> e" using e by (simp add: expo_def)
  define k where "k = nat (e - expo x)"
  have ek: "e = expo x + int k" using le by (simp add: k_def)
  have "x / 2 powi expo x = of_int m * (2 powi e / 2 powi expo x)" by (simp add: x_def)
  also have "(2::rat) powi e / 2 powi expo x = 2 powi (e - expo x)" by (simp add: power_int_diff)
  also have "\<dots> = 2 ^ k" using ek by (simp add: power_int_def)
  also have "of_int m * (2::rat) ^ k = of_int (m * 2 ^ k)" by simp
  finally have q: "x / 2 powi expo x = of_int (m * 2 ^ k)" .
  have "rhe (x / 2 powi expo x) = m * 2 ^ k"
    unfolding q by (rule rhe_of_int)
  then have "fl64 x = of_int (m * 2 ^ k) * 2 powi expo x"
    using fl64_expo [OF x0] by (simp only:)
  also have "\<dots> = of_int m * (2 ^ k * 2 powi expo x)" by simp
  also have "(2::rat) ^ k * 2 powi expo x = 2 powi e"
    unfolding ek by (simp add: power_int_add)
  finally show ?thesis by (simp add: x_def)
qed

lemma fl64_of_int: "\<bar>m\<bar> < 2 ^ 53 \<Longrightarrow> fl64 (of_int m) = of_int m"
  using fl64_exact [of m 0] by simp

lemma fl64_dyadic:
  assumes m: "\<bar>m\<bar> < 2 ^ 53" and k: "k \<le> 1074"
  shows "fl64 (of_int m / 2 ^ k) = of_int m / 2 ^ k"
proof -
  have "- 1074 \<le> - int k" using k by simp
  from fl64_exact [OF m this] have "fl64 (of_int m * 2 powi (- int k)) = of_int m * 2 powi (- int k)" .
  moreover have "(2::rat) powi (- int k) = 1 / 2 ^ k"
    by (simp add: power_int_minus power_int_of_nat divide_inverse)
  ultimately show ?thesis by simp
qed

lemma to_float_mono: "x \<le> y \<Longrightarrow> fle (to_float x) (to_float y)"
  using fl64_mono [of x y] by (auto simp: to_float_def Let_def)

lemma fle_PInf: "fle a PInf"
  by (cases a) simp_all

lemma fle_refl: "fle a a"
  by (cases a) simp_all

lemma fle_trans: "fle a b \<Longrightarrow> fle b c \<Longrightarrow> fle a c"
  by (cases a; cases b; cases c) simp_all

lemma fdiv_mono: "0 < c \<Longrightarrow> fle a b \<Longrightarrow> fle (fdiv a c) (fdiv b c)"
  by (cases a; cases b) (simp_all add: to_float_mono divide_right_mono less_imp_le fle_PInf)

lemma py_round1_mono: "fle a b \<Longrightarrow> fle (py_round1 a) (py_round1 b)"
proof (cases a; cases b)
  fix x y assume ab: "fle a b" and a: "a = Fin x" and b: "b = Fin y"
  then have "x * 10 \<le> y * 10" by simp
  then have "rhe (x * 10) \<le> rhe (y * 10)" by (rule rhe_mono)
  then have "(of_int (rhe (x * 10)) :: rat) / 10 \<le> of_int (rhe (y * 10)) / 10" by simp
  then show ?thesis unfolding a b py_round1.simps by (rule to_float_mono)
qed (simp_all add: fle_PInf)

lemma to_float_of_int: "\<bar>m\<bar> < 2 ^ 53 \<Longrightarrow> to_float (of_int m) = Fin (of_int m)"
proof -
  assume m: "\<bar>m\<bar> < 2 ^ 53"
  then have "(of_int \<bar>m\<bar> :: rat) < of_int (2 ^ 53)" by (simp only: of_int_less_iff)
  then have "\<bar>(of_int m :: rat)\<bar> < 2 ^ 1024" by simp
  then show ?thesis using m by (simp add: to_float_def fl64_of_int abs_less_iff not_le)
qed

lemma fl64_between:
  assumes "of_int a \<le> x" "x \<le> of_int b" "\<bar>a\<bar> < 2 ^ 53" "\<bar>b\<bar> < 2 ^ 53"
  shows "of_int a \<le> fl64 x \<and> fl64 x \<le> of_int b"
  using fl64_mono [OF assms(1)] fl64_mono [OF assms(2)] assms(3,4)
  by (simp add: fl64_of_int)

lemma meters_per_mile_bounds: "1609 \<le> meters_per_mile \<and> meters_per_mile \<le> 1610"
  using fl64_between [of 1609 "160934 / 100" 1610] by (simp add: meters_per_mile_def)

lemma meters_per_mile_pos: "0 < meters_per_mile"
  using meters_per_mile_bounds by linarith

lemma to_float_small: "\<bar>fl64 x\<bar> < 2 ^ 1024 \<Longrightarrow> to_float x = Fin (fl64 x)"
  by (simp add: to_float_def Let_def abs_less_iff not_le)

lemma to_float_mile: "to_float (160934 / 100) = Fin meters_per_mile"
  using meters_per_mile_bounds
  by (intro to_float_small [of "160934 / 100", folded meters_per_mile_def]) (simp add: abs_less_iff)

lemma to_float_numeral [simp]: "to_float 1 = Fin 1" "to_float 10 = Fin 10" "to_float 15 = Fin 15" "to_float 30 = Fin 30"
  using to_float_of_int [of 1] to_float_of_int [of 10] to_float_of_int [of 15] to_float_of_int [of 30]
  by simp_all

lemma rhe_numeral [simp]: "rhe 10 = 10" "rhe 100 = 100" "rhe 150 = 150" "rhe 300 = 300"
  using rhe_of_int [of 10] rhe_of_int [of 100] rhe_of_int [of 150] rhe_of_int [of 300] by simp_all

lemma rhe_eqI:
  assumes "of_int n - 1 / 2 < x" "x < of_int n + 1 / 2"
  shows "rhe x = n"
proof -
  have f: "of_int \<lfloor>x\<rfloor> \<le> x" "x < of_int \<lfloor>x\<rfloor> + 1" by linarith+
  have "(of_int \<lfloor>x\<rfloor> :: rat) < of_int n + 1" using f(1) assms(2) by linarith
  then have "(of_int \<lfloor>x\<rfloor> :: rat) < of_int (n + 1)" by simp
  then have u: "\<lfloor>x\<rfloor> < n + 1" by (simp only: of_int_less_iff)
  have "(of_int n :: rat) - 2 < of_int \<lfloor>x\<rfloor>" using f(2) assms(1) by linarith
  then have "(of_int (n - 2) :: rat) < of_int \<lfloor>x\<rfloor>" by simp
  then have l: "n - 2 < \<lfloor>x\<rfloor>" by (simp only: of_int_less_iff)
  consider "\<lfloor>x\<rfloor> = n" | "\<lfloor>x\<rfloor> = n - 1" using u l by linarith
  then show ?thesis
  proof cases
    case 1
    then show ?thesis using assms by (simp add: rhe_def Let_def)
  next
    case 2
    then show ?thesis using assms by (simp add: rhe_def Let_def)
  qed
qed

lemma miles_of_one_mile: "miles_of (JReal (160934 / 100)) = Inr (Fin 1)"
proof -
  have "div_mile (JReal (160934 / 100)) = Inr (fdiv (Fin meters_per_mile) meters_per_mile)"
    unfolding div_mile_def py_float.simps to_float_mile by simp
  also have "fdiv (Fin meters_per_mile) meters_per_mile = Fin 1"
    using meters_per_mile_pos by simp
  finally show ?thesis by (simp add: miles_of_def)
qed

lemma ten_miles_quotient:
  "to_float (fl64 (160934 / 10) / meters_per_mile) = Fin q \<Longrightarrow> rhe (q * 10) = 100"
proof -
  assume q: "to_float (fl64 (160934 / 10) / meters_per_mile) = Fin q"
  define a where "a = fl64 (160934 / 10)"
  have a: "16093 \<le> a \<and> a \<le> 16094"
    using fl64_between [of 16093 "160934 / 10" 16094] by (simp add: a_def)
  have c: "1609 \<le> meters_per_mile \<and> meters_per_mile \<le> 1610" by (rule meters_per_mile_bounds)
  have lo: "319 / 32 \<le> a / meters_per_mile"
  proof -
    have "319 / 32 * meters_per_mile \<le> 319 / 32 * 1610" using c by simp
    also have "\<dots> \<le> a" using a by simp
    finally show ?thesis using meters_per_mile_pos by (simp add: pos_le_divide_eq)
  qed
  have hi: "a / meters_per_mile \<le> 321 / 32"
  proof -
    have "a \<le> 321 / 32 * 1609" using a by simp
    also have "\<dots> \<le> 321 / 32 * meters_per_mile" using c by simp
    finally show ?thesis using meters_per_mile_pos by (simp add: pos_divide_le_eq)
  qed
  have d1: "fl64 (319 / 32) = 319 / 32" using fl64_dyadic [of 319 5] by simp
  have d2: "fl64 (321 / 32) = 321 / 32" using fl64_dyadic [of 321 5] by simp
  have f: "319 / 32 \<le> fl64 (a / meters_per_mile) \<and> fl64 (a / meters_per_mile) \<le> 321 / 32"
    using fl64_mono [OF lo] fl64_mono [OF hi] by (simp add: d1 d2)
  have "q = fl64 (a / meters_per_mile)"
    using q by (simp add: to_float_def Let_def a_def split: if_splits)
  with f have "of_int 100 - 1 / 2 < q * 10" "q * 10 < of_int 100 + 1 / 2" by simp_all
  then show ?thesis by (rule rhe_eqI)
qed

lemma to_float_ten_miles: "to_float (160934 / 10) = Fin (fl64 (160934 / 10))"
  using fl64_between [of 16093 "160934 / 10" 16094]
  by (intro to_float_small) (simp add: abs_less_iff)

lemma miles_of_ten_miles: "miles_of (JReal (160934 / 10)) = Inr (Fin 10)"
proof -
  obtain q where q: "to_float (fl64 (160934 / 10) / meters_per_mile) = Fin q"
  proof -
    have a: "16093 \<le> fl64 (160934 / 10) \<and> fl64 (160934 / 10) \<le> 16094"
      using fl64_between [of 16093 "160934 / 10" 16094] by simp
    have "0 \<le> fl64 (160934 / 10) / meters_per_mile"
      using a meters_per_mile_pos by simp
    moreover have "fl64 (160934 / 10) / meters_per_mile \<le> 16094"
    proof -
      have "fl64 (160934 / 10) \<le> 16094 * 1" using a by simp
      also have "\<dots> \<le> 16094 * meters_per_mile" using meters_per_mile_bounds by simp
      finally show ?thesis using meters_per_mile_pos by (simp add: pos_divide_le_eq)
    qed
    ultimately have "0 \<le> fl64 (fl64 (160934 / 10) / meters_per_mile) \<and>
        fl64 (fl64 (160934 / 10) / meters_per_mile) \<le> 16094"
      using fl64_between [of 0 "fl64 (160934 / 10) / meters_per_mile" 16094] by simp
    then have "to_float (fl64 (160934 / 10) / meters_per_mile)
        = Fin (fl64 (fl64 (160934 / 10) / meters_per_mile))"
      by (intro to_float_small) (simp add: abs_less_iff)
    then show ?thesis using that by blast
  qed
  have "div_mile (JReal (160934 / 10)) = Inr (Fin q)"
    unfolding div_mile_def py_float.simps to_float_ten_miles sum.case fdiv.simps q by (rule refl)
  then show ?thesis
    using ten_miles_quotient [OF q] by (simp add: miles_of_def)
qed


lemma minutes_of_1800: "minutes_of (JInt 1800) = Inr (Fin 30)"
  by (simp add: minutes_of_def finite_or_overflow_def)

lemma py_float_value: "py_float a = Inr f \<Longrightarrow> f = to_float (jval a)"
  by (cases a) (auto simp: finite_or_overflow_def split: pyfloat.splits)

lemma miles_of_mono:
  assumes "jval a \<le> jval b" "miles_of a = Inr x" "miles_of b = Inr y"
  shows "fle x y"
proof -
  obtain fa where fa: "py_float a = Inr fa" and x: "x = py_round1 (fdiv fa meters_per_mile)"
    using assms(2) by (auto simp: miles_of_def div_mile_def split: sum.splits)
  obtain fb where fb: "py_float b = Inr fb" and y: "y = py_round1 (fdiv fb meters_per_mile)"
    using assms(3) by (auto simp: miles_of_def div_mile_def split: sum.splits)
  have "fle fa fb"
    using py_float_value [OF fa] py_float_value [OF fb] to_float_mono [OF assms(1)] by simp
  then show ?thesis
    unfolding x y by (intro py_round1_mono fdiv_mono meters_per_mile_pos)
qed

section \<open>What the operations leave unchanged\<close>

lemma bindE:
  assumes "bind m f w = (r, w')"
  obtains (raised) e where "m w = (Inl e, w')" "r = Inl e"
        | (returned) x w1 where "m w = (Inr x, w1)" "f x w1 = (r, w')"
  using assms by (auto simp: bind_def split: prod.splits sum.splits)

lemma call_frame:
  assumes "call E w = (r, w')"
  shows "sheets w' = sheets w" "requested w' = requested w" "reads w' = reads w"
    "calls w' = Suc (calls w)"
  using assms by (auto simp: call_def)

lemma rows_of_set_rows: "rows_of (set_rows ws rows w) t = (if t = ws then rows else rows_of w t)"
  by (simp add: rows_of_def set_rows_def)

lemma ws_append_row_frame:
  assumes "ws_append_row E ws row w = (r, w')"
  shows "requested w' = requested w" "reads w' = reads w"
    "t \<noteq> ws \<Longrightarrow> sheets w' t = sheets w t"
    "r = Inr () \<Longrightarrow> rows_of w' ws = rows_of w ws @ [row]"
    "r \<noteq> Inr () \<Longrightarrow> sheets w' = sheets w"
  using assms
  by (auto simp: ws_append_row_def bind_def call_def set_rows_def rows_of_def
      split: if_splits option.splits)

lemma log_rows_frame:
  assumes "log_rows E ws now alts w = (r, w')"
  shows "requested w' = requested w \<and> reads w' = reads w
    \<and> (\<forall>t. t \<noteq> ws \<longrightarrow> sheets w' t = sheets w t)
    \<and> (\<exists>rows. rows_of w' ws = rows_of w ws @ rows \<and> length rows \<le> length alts
          \<and> map Inr rows = map (make_row now) (take (length rows) alts)
          \<and> (r = Inr () \<longrightarrow> length rows = length alts))"
  using assms
proof (induction alts arbitrary: w)
  case Nil
  then show ?case by (auto simp: ret_def)
next
  case (Cons a alts)
  show ?case
  proof (cases "make_row now a")
    case (Inl e)
    with Cons.prems show ?thesis by (auto simp: raise_def)
  next
    case (Inr row)
    with Cons.prems
    have b: "bind (ws_append_row E ws row) (\<lambda>_. log_rows E ws now alts) w = (r, w')" by simp
    from b show ?thesis
    proof (cases rule: bindE)
      case (raised e)
      from ws_append_row_frame [OF raised(1)] raised(2)
      show ?thesis by (auto simp: rows_of_def)
    next
      case (returned x w1)
      note f1 = ws_append_row_frame [OF returned(1)]
      from Cons.IH [OF returned(2)] obtain rows where
        rest: "requested w' = requested w1" "reads w' = reads w1"
          "\<forall>t. t \<noteq> ws \<longrightarrow> sheets w' t = sheets w1 t"
          "rows_of w' ws = rows_of w1 ws @ rows" "length rows \<le> length alts"
          "map Inr rows = map (make_row now) (take (length rows) alts)"
          "r = Inr () \<longrightarrow> length rows = length alts"
        by blast
      have x: "Inr x = (Inr () :: exn + unit)" by simp
      have "rows_of w' ws = rows_of w ws @ (row # rows)"
        using rest(4) f1(4) [OF x] by simp
      moreover have "map Inr (row # rows) = map (make_row now) (take (length (row # rows)) (a # alts))"
        using rest(6) Inr by simp
      moreover have "length (row # rows) \<le> length (a # alts)" using rest(5) by simp
      moreover have "r = Inr () \<longrightarrow> length (row # rows) = length (a # alts)" using rest(7) by simp
      ultimately show ?thesis
        using rest(1,2,3) f1(1,2,3) by (intro conjI exI [of _ "row # rows"]) auto
    qed
  qed
qed

lemma get_last_run_time_frame:
  assumes "get_last_run_time E ws_log route_name w = (l, w')"
  shows "sheets w' = sheets w" "requested w' = requested w" "reads w' = reads w"
  using assms by (auto simp: get_last_run_time_def call_def split: if_splits)

lemma get_routes_frame:
  assumes "get_routes E origin destination w = (r, w')"
  shows "sheets w' = sheets w" "requested w' = requested w @ [(origin, destination)]"
    "reads w' = reads w" "calls w' = calls w"
  using assms
  by (auto simp: get_routes_def Let_def split: reply.splits if_splits body.splits sum.splits)

lemma update_last_run_time_frame:
  "requested (update_last_run_time E ws_log route_name ts w) = requested w"
  "reads (update_last_run_time E ws_log route_name ts w) = reads w"
  "t \<noteq> ws_log \<Longrightarrow> sheets (update_last_run_time E ws_log route_name ts w) t = sheets w t"
  by (auto simp: update_last_run_time_def ws_find_def ws_update_cell2_def ws_append_row_def
      bind_def call_def set_rows_def split: option.splits)

lemma to_float_dyadic:
  assumes "\<bar>m\<bar> < 2 ^ 53" "k \<le> 1074"
  shows "to_float (of_int m / 2 ^ k) = Fin (of_int m / 2 ^ k)"
proof -
  have "(of_int \<bar>m\<bar> :: rat) < of_int (2 ^ 53)" using assms(1) by (simp only: of_int_less_iff)
  then have "\<bar>(of_int m :: rat)\<bar> < 2 ^ 53" by simp
  moreover have "\<bar>(of_int m :: rat) / 2 ^ k\<bar> \<le> \<bar>of_int m\<bar>"
    by (simp add: abs_divide divide_le_eq_1_pos pos_divide_le_eq mult_le_cancel_left1)
  ultimately have "\<bar>(of_int m :: rat) / 2 ^ k\<bar> < 2 ^ 1024" by simp
  then show ?thesis
    using fl64_dyadic [OF assms] by (intro to_float_small [THEN trans]) simp_all
qed

lemma interval_skipped_half_minutes:
  assumes j: "\<bar>j\<bar> < 2 ^ 47" and n: "\<bar>n\<bar> < 2 ^ 53"
    and d: "instant now - instant l = 30000000 * j"
  shows "interval_skipped now (Some l) (JInt n) = Inr (of_int j / 2 < (of_int n :: rat))"
proof -
  have j30: "\<bar>30 * j\<bar> < 2 ^ 53" using j by simp
  have "total_seconds (30000000 * j) = to_float (of_int (30 * j))"
    by (simp add: total_seconds_def)
  also have "\<dots> = Fin (of_int (30 * j))" using j30 by (rule to_float_of_int)
  finally have ts: "total_seconds (instant now - instant l) = Fin (of_int (30 * j))"
    by (simp add: d)
  have j53: "\<bar>j\<bar> < 2 ^ 53" using j by simp
  have "fdiv (Fin (of_int (30 * j))) 60 = to_float (of_int j / 2 ^ 1)" by simp
  also have "\<dots> = Fin (of_int j / 2 ^ 1)" using j53 by (intro to_float_dyadic) simp_all
  finally have q: "fdiv (Fin (of_int (30 * j))) 60 = Fin (of_int j / 2)" by simp
  have f: "py_float (JInt n) = Inr (Fin (of_int n))"
    using to_float_of_int [OF n] by (simp add: finite_or_overflow_def)
  show ?thesis
    unfolding interval_skipped_def option.case f sum.case ts q
    by (simp add: flt_def not_le)
qed

lemma log_route_to_sheet_cases:
  assumes L: "log_route_to_sheet E ws ws_log route_name origin destination interval days start_s end_s w = (r, w')"
    and now: "now = now_chicago (clock E (reads w))"
  obtains (day) "day_skipped now days" "r = Inr SkipDay" "w' = w\<lparr>reads := Suc (reads w)\<rparr>"
  | (window_raised) e where "\<not> day_skipped now days" "window_skipped now start_s end_s = Inl e"
      "r = Inl e" "w' = w\<lparr>reads := Suc (reads w)\<rparr>"
  | (window) "\<not> day_skipped now days" "window_skipped now start_s end_s = Inr True"
      "r = Inr SkipWindow" "w' = w\<lparr>reads := Suc (reads w)\<rparr>"
  | (interval_raised) e last_dt w1 where "\<not> day_skipped now days" "window_skipped now start_s end_s = Inr False"
      "get_last_run_time E ws_log route_name (w\<lparr>reads := Suc (reads w)\<rparr>) = (last_dt, w1)"
      "interval_skipped now last_dt interval = Inl e" "r = Inl e" "w' = w1"
  | (interval) last_dt w1 where "\<not> day_skipped now days" "window_skipped now start_s end_s = Inr False"
      "get_last_run_time E ws_log route_name (w\<lparr>reads := Suc (reads w)\<rparr>) = (last_dt, w1)"
      "interval_skipped now last_dt interval = Inr True" "r = Inr SkipInterval" "w' = w1"
  | (fetch_raised) e last_dt w1 where "\<not> day_skipped now days" "window_skipped now start_s end_s = Inr False"
      "get_last_run_time E ws_log route_name (w\<lparr>reads := Suc (reads w)\<rparr>) = (last_dt, w1)"
      "interval_skipped now last_dt interval = Inr False"
      "get_routes E origin destination w1 = (Inl e, w')" "r = Inl e"
  | (no_routes) last_dt w1 where "\<not> day_skipped now days" "window_skipped now start_s end_s = Inr False"
      "get_last_run_time E ws_log route_name (w\<lparr>reads := Suc (reads w)\<rparr>) = (last_dt, w1)"
      "interval_skipped now last_dt interval = Inr False"
      "get_routes E origin destination w1 = (Inr [], w')" "r = Inr NoRoutes"
  | (rows_raised) e last_dt w1 alts w2 where "\<not> day_skipped now days" "window_skipped now start_s end_s = Inr False"
      "get_last_run_time E ws_log route_name (w\<lparr>reads := Suc (reads w)\<rparr>) = (last_dt, w1)"
      "interval_skipped now last_dt interval = Inr False"
      "get_routes E origin destination w1 = (Inr alts, w2)" "alts \<noteq> []"
      "log_rows E ws now alts w2 = (Inl e, w')" "r = Inl e"
  | (logged) last_dt w1 alts w2 w3 where "\<not> day_skipped now days" "window_skipped now start_s end_s = Inr False"
      "get_last_run_time E ws_log route_name (w\<lparr>reads := Suc (reads w)\<rparr>) = (last_dt, w1)"
      "interval_skipped now last_dt interval = Inr False"
      "get_routes E origin destination w1 = (Inr alts, w2)" "alts \<noteq> []"
      "log_rows E ws now alts w2 = (Inr (), w3)" "r = Inr Logged"
      "w' = update_last_run_time E ws_log route_name now w3"
  using L unfolding log_route_to_sheet_def Let_def now [symmetric]
  by (auto split: if_splits sum.splits bool.splits prod.splits)

lemma time_le_refl: "time_le t t"
  by (cases t) simp

lemma strptime_HM_nonempty: "strptime_HM s = Inr t \<Longrightarrow> s \<noteq> []"
  by (auto simp: strptime_HM_def)

lemma log_route_no_days:
  assumes "log_route_to_sheet E ws ws_log route_name origin destination interval None start_s end_s w = (r, w')"
  shows "r \<noteq> Inr SkipDay"
proof -
  have d: "\<not> day_skipped (now_chicago (clock E (reads w))) None"
    by (simp add: day_skipped_def)
  from assms show ?thesis
    by (cases rule: log_route_to_sheet_cases [OF _ refl]) (use d in blast)+
qed

lemma process_route_no_skip_day: "fst (process_route E ws_log route w) \<noteq> Inr SkipDay"
proof -
  obtain r w' where p: "process_route E ws_log route w = (r, w')"
    by (cases "process_route E ws_log route w")
  have "r \<noteq> Inr SkipDay"
  proof (cases "rt_name route")
    case None
    with p show ?thesis by (auto simp: process_route_def raise_def)
  next
    case (Some name)
    with p have "bind (get_or_create_worksheet E (str_replace name ''/'' ''-'')) (\<lambda>ws.
            case rt_origin route of
              None \<Rightarrow> raise (KeyError ''origin'')
            | Some origin \<Rightarrow>
            (case rt_destination route of
              None \<Rightarrow> raise (KeyError ''destination'')
            | Some destination \<Rightarrow>
            (case rt_start route of
              None \<Rightarrow> raise (KeyError ''start'')
            | Some start_s \<Rightarrow>
            (case rt_end route of
              None \<Rightarrow> raise (KeyError ''end'')
            | Some end_s \<Rightarrow>
                log_route_to_sheet E ws ws_log name origin destination
                  (case rt_interval route of None \<Rightarrow> JInt 15 | Some i \<Rightarrow> i)
                  None start_s end_s)))) w = (r, w')"
      by (simp add: process_route_def)
    then show ?thesis
    proof (cases rule: bindE)
      case (raised e)
      then show ?thesis by simp
    next
      case (returned ws w1)
      then show ?thesis
        by (auto simp: raise_def split: option.splits dest: log_route_no_days)
    qed
  qed
  with p show ?thesis by simp
qed

lemma run_routes_no_skip_day: "SkipDay \<notin> set (fst (fst (run_routes E ws_log rs w)))"
proof (induction rs arbitrary: w)
  case Nil
  show ?case by simp
next
  case (Cons route rest)
  show ?case
  proof (cases "process_route E ws_log route w")
    case (Pair r w1)
    show ?thesis
    proof (cases r)
      case (Inl e)
      with Pair show ?thesis by simp
    next
      case (Inr out)
      have "out \<noteq> SkipDay"
        using process_route_no_skip_day [of E ws_log route w] Pair Inr by simp
      then show ?thesis
        using Pair Inr Cons.IH [of w1] by (auto split: prod.splits)
    qed
  qed
qed

lemma run_commute_tracker_no_skip_day: "SkipDay \<notin> set (fst (fst (run_commute_tracker E w)))"
  using run_routes_no_skip_day
  by (auto simp: run_commute_tracker_def split: prod.splits sum.splits option.splits)

lemma run_routes_append:
  assumes "run_routes E ws_log pre w = ((outs, None), w1)"
  shows "run_routes E ws_log (pre @ rest) w =
    (case run_routes E ws_log rest w1 of ((outs', x), w2) \<Rightarrow> ((outs @ outs', x), w2))"
  using assms
proof (induction pre arbitrary: w outs)
  case Nil
  then show ?case by (simp split: prod.splits)
next
  case (Cons route pre)
  from Cons.prems obtain out w0 outs0 where
    p: "process_route E ws_log route w = (Inr out, w0)"
    and r: "run_routes E ws_log pre w0 = ((outs0, None), w1)"
    and o: "outs = out # outs0"
    by (auto split: prod.splits sum.splits)
  from Cons.IH [OF r] show ?case
    using p o by (simp split: prod.splits)
qed

lemma run_routes_length:
  "run_routes E ws_log rs w = ((outs, x), w') \<Longrightarrow>
     length outs \<le> length rs \<and> (x = None \<longrightarrow> length outs = length rs)
     \<and> (x \<noteq> None \<longrightarrow> length outs < length rs)"
proof (induction rs arbitrary: w outs x w')
  case Nil
  then show ?case by auto
next
  case (Cons route rest)
  show ?case
  proof (cases "process_route E ws_log route w")
    case (Pair r w1)
    show ?thesis
    proof (cases r)
      case (Inl e)
      with Pair Cons.prems show ?thesis by auto
    next
      case (Inr out)
      obtain outs0 x0 w2 where rr: "run_routes E ws_log rest w1 = ((outs0, x0), w2)"
        by (metis prod.exhaust)
      with Pair Inr Cons.prems have "outs = out # outs0 \<and> x = x0" by simp
      with Cons.IH [OF rr] show ?thesis by auto
    qed
  qed
qed



lemma log_rows_returned:
  "log_rows E ws now alts w = (Inr u, w') \<Longrightarrow>
     (\<forall>a \<in> set alts. \<exists>row. make_row now a = Inr row)
     \<and> (\<forall>k < length alts. \<not> service_fails E (calls w + k))
     \<and> calls w' = calls w + length alts"
proof (induction alts arbitrary: w)
  case Nil
  then show ?case by (simp add: ret_def)
next
  case (Cons a alts)
  show ?case
  proof (cases "make_row now a")
    case (Inl e)
    with Cons.prems show ?thesis by (simp add: raise_def)
  next
    case (Inr row)
    with Cons.prems
    have b: "bind (ws_append_row E ws row) (\<lambda>_. log_rows E ws now alts) w = (Inr u, w')" by simp
    from b show ?thesis
    proof (cases rule: bindE)
      case (raised e)
      then show ?thesis by simp
    next
      case (returned x w1)
      from returned(1) have c: "\<not> service_fails E (calls w)" "calls w1 = Suc (calls w)"
        by (auto simp: ws_append_row_def bind_def call_def set_rows_def split: if_splits)
      from Cons.IH [OF returned(2)] have ih:
        "\<forall>a \<in> set alts. \<exists>row. make_row now a = Inr row"
        "\<forall>k < length alts. \<not> service_fails E (calls w1 + k)"
        "calls w' = calls w1 + length alts" by auto
      have "\<forall>k < length (a # alts). \<not> service_fails E (calls w + k)"
      proof (intro allI impI)
        fix k assume "k < length (a # alts)"
        then show "\<not> service_fails E (calls w + k)"
          using c ih(2) by (cases k) auto
      qed
      with ih c Inr show ?thesis by auto
    qed
  qed
qed

lemma get_last_run_time_calls:
  "get_last_run_time E ws_log route_name w = (l, w') \<Longrightarrow> calls w' = Suc (calls w)"
  by (auto simp: get_last_run_time_def call_def split: if_splits)

lemma log_route_fetch:
  assumes L: "log_route_to_sheet E ws ws_log route_name origin destination interval days start_s end_s w = (r, w')"
    and now: "now = now_chicago (clock E (reads w))"
    and req: "requested w' \<noteq> requested w"
  shows "(provider E (length (requested w)) origin destination = Response status_code b \<and> status_code \<noteq> 200 \<longrightarrow>
            r = Inr NoRoutes)
    \<and> (provider E (length (requested w)) origin destination = Failed \<longrightarrow> r = Inl RequestException)
    \<and> (provider E (length (requested w)) origin destination = Response 200 (Doc (Some alts))
          \<and> ((\<exists>a \<in> set alts. \<exists>e. make_row now a = Inl e)
               \<or> (\<exists>k < length alts. service_fails E (Suc (calls w) + k))) \<longrightarrow>
            (\<exists>e. r = Inl e))"
  using L now
proof (cases rule: log_route_to_sheet_cases)
  case day
  with req show ?thesis by simp
next
  case (window_raised e)
  with req show ?thesis by simp
next
  case window
  with req show ?thesis by simp
next
  case (interval_raised e last_dt w1)
  with req get_last_run_time_frame [OF interval_raised(3)] show ?thesis by simp
next
  case (interval last_dt w1)
  with req get_last_run_time_frame [OF interval(3)] show ?thesis by simp
next
  case (fetch_raised e last_dt w1)
  have q: "requested w1 = requested w"
    using get_last_run_time_frame [OF fetch_raised(3)] by simp
  from fetch_raised(5) q fetch_raised(6) show ?thesis
    by (auto simp: get_routes_def Let_def split: reply.splits if_splits body.splits sum.splits)
next
  case (no_routes last_dt w1)
  have q: "requested w1 = requested w"
    using get_last_run_time_frame [OF no_routes(3)] by simp
  from no_routes(5) q no_routes(6) show ?thesis
    by (auto simp: get_routes_def Let_def split: reply.splits if_splits body.splits sum.splits)
next
  case (rows_raised e last_dt w1 alts' w2)
  have q: "requested w1 = requested w"
    using get_last_run_time_frame [OF rows_raised(3)] by simp
  from rows_raised(5) q rows_raised(6,8) show ?thesis
    by (auto simp: get_routes_def Let_def split: reply.splits if_splits body.splits sum.splits)
next
  case (logged last_dt w1 alts' w2 w3)
  have q: "requested w1 = requested w"
    using get_last_run_time_frame [OF logged(3)] by simp
  have c: "calls w2 = Suc (calls w)"
    using get_last_run_time_calls [OF logged(3)] get_routes_frame(4) [OF logged(5)] by simp
  note ok = log_rows_returned [OF logged(7)]
  from logged(5) q logged(6) have
    "(provider E (length (requested w)) origin destination = Response status_code b \<and> status_code \<noteq> 200 \<longrightarrow> False)"
    "(provider E (length (requested w)) origin destination = Failed \<longrightarrow> False)"
    "(provider E (length (requested w)) origin destination = Response 200 (Doc (Some alts)) \<longrightarrow> alts' = alts)"
    by (auto simp: get_routes_def Let_def split: reply.splits if_splits body.splits sum.splits)
  with ok c show ?thesis by auto
qed

lemma process_route_is_log_route:
  assumes "rt_name route = Some name" "rt_origin route = Some origin"
    "rt_destination route = Some destination" "rt_start route = Some start_s" "rt_end route = Some end_s"
    "get_or_create_worksheet E (str_replace name ''/'' ''-'') w = (Inr ws, w0)"
  shows "process_route E ws_log route w =
    log_route_to_sheet E ws ws_log name origin destination
      (case rt_interval route of None \<Rightarrow> JInt 15 | Some i \<Rightarrow> i) None start_s end_s w0"
  using assms by (simp add: process_route_def bind_def)

section \<open>Evaluation on the concrete inputs\<close>

lemmas store_defs = get_or_create_worksheet_def sh_worksheet_def sh_add_worksheet_def
  ws_get_all_values_def ws_clear_def ws_append_row_def ws_find_def ws_update_cell2_def
  bind_def ret_def raise_def call_def rows_of_def set_rows_def no_values_def headers_def
  is_space_def get_last_run_time_def last_run_of_def row_get_def update_last_run_time_def

lemmas gate_defs = log_route_to_sheet_def day_skipped_def window_skipped_def
  strptime_HM_def digit_val_def get_routes_def first_leg_def Let_def

lemmas run_defs = run_commute_tracker_def process_route_def gate_defs

lemma now_chicago_fields [simp]:
  "day_name (now_chicago t) = day_name t"
  "date_text (now_chicago t) = date_text t"
  "offset_text (now_chicago t) = offset_text t"
  "time_of (now_chicago t) = (hour t, minute t, 0, 0)"
  "hour (now_chicago t) = hour t" "minute (now_chicago t) = minute t"
  "second (now_chicago t) = 0" "microsecond (now_chicago t) = 0"
  "instant (now_chicago t) = instant t - (int (second t) * 1000000 + int (microsecond t))"
  by (simp_all add: now_chicago_def time_of_def)

lemma monday_0830_fields [simp]:
  "day_name monday_0830 = ''Monday''" "date_text monday_0830 = ''2024-03-04''"
  "offset_text monday_0830 = ''-06:00''" "hour monday_0830 = 8" "minute monday_0830 = 30"
  "second monday_0830 = 17" "microsecond monday_0830 = 5"
  "instant monday_0830 = 1709562617000005"
  by (simp_all add: monday_0830_def)

lemma monday_0600_fields [simp]:
  "day_name monday_0600 = ''Monday''" "hour monday_0600 = 6" "minute monday_0600 = 0"
  by (simp_all add: monday_0600_def)

lemma interval_after_5_minutes:
  "interval_skipped (now_chicago monday_0830) (Some monday_0825) (JInt 15) = Inr True"
  using interval_skipped_half_minutes [of 10 15 "now_chicago monday_0830" monday_0825]
  by (simp add: monday_0825_def)

lemma interval_after_30_minutes:
  "interval_skipped (now_chicago monday_0830) (Some monday_0800) (JInt 15) = Inr False"
  using interval_skipped_half_minutes [of 60 15 "now_chicago monday_0830" monday_0800]
  by (simp add: monday_0800_def)

lemma interval_no_last_run: "interval_skipped now None interval = Inr False"
  by (simp add: interval_skipped_def)

lemma turn_by_turn_i90:
  "turn_by_turn [\<lparr>html_instructions = Some ''Turn <b>left</b>''\<rparr>, \<lparr>html_instructions = Some ''Merge''\<rparr>]
     = Inr (''Turn left'' @ arrow @ ''Merge'')"
  by (simp add: turn_by_turn_def strip_bold_def)

lemma make_row_i90:
  "make_row (now_chicago monday_0830) alt_i90 =
     Inr [Text ''2024-03-04 08:30:00'', Text ''Monday'', Text ''I-90'',
          Number (Fin 30), Number (Fin 10), Text (''Turn left'' @ arrow @ ''Merge'')]"
proof -
  have l: "first_leg alt_i90 = Inr leg_i90" by (simp add: first_leg_def alt_i90_def)
  have d: "duration_min leg_i90 = Inr (Fin 30)"
    unfolding duration_min_def leg_i90_def by (simp add: minutes_of_1800)
  have m: "distance_mi leg_i90 = Inr (Fin 10)"
    unfolding distance_mi_def leg_i90_def leg.simps option.case text_value.simps
    by (rule miles_of_ten_miles)
  have s: "steps leg_i90 = Some [\<lparr>html_instructions = Some ''Turn <b>left</b>''\<rparr>, \<lparr>html_instructions = Some ''Merge''\<rparr>]"
    by (simp add: leg_i90_def)
  have t: "stamp (now_chicago monday_0830) = ''2024-03-04 08:30:00''"
    by (simp add: stamp_def clock_text_def numeral_2_eq_2)

  show ?thesis
    unfolding make_row_def l d m s sum.case option.case turn_by_turn_i90 t
    by (simp add: alt_i90_def)
qed

lemma print_routes_examples:
  "print_routes [alt_i90] = Inr ()" "print_routes [alt_i90, alt_i90] = Inr ()"
  "print_routes [alt_traffic] = Inr ()"
  by (simp_all add: first_leg_def alt_i90_def leg_i90_def alt_traffic_def leg_traffic_def)

lemmas eval_defs = run_defs store_defs env_of_def empty_world_def world_of_def parse_iso_def
  route_home_def route_gym_def route_no_window_def main_def




section \<open>The directions text\<close>

lemma str_replace_no_first:
  "p \<notin> set s \<Longrightarrow> str_replace s (p # ps) new = s"
proof (induction s)
  case Nil
  show ?case by simp
next
  case (Cons c cs)
  then have "c \<noteq> p" and "p \<notin> set cs" by auto
  with Cons.IH show ?case by simp
qed

lemma strip_bold_plain: "CHR ''<'' \<notin> set s \<Longrightarrow> strip_bold s = s"
  by (simp add: strip_bold_def str_replace_no_first)

lemma step_texts_all_present:
  "step_texts (map (\<lambda>t. \<lparr>html_instructions = Some t\<rparr>) texts) = Inr (map strip_bold texts)"
  by (induction texts) simp_all

section \<open>The claims\<close>

subsection \<open>C1: a failure in one route and the routes after it\<close>

text \<open>
  C1, as the specification states it: a failure raised while one route is processed does
  not keep \<^verbatim>\<open>run_commute_tracker\<close> from attempting the routes after it. The loop over
  the routes has no handler, so this fails: with two routes configured and the network
  request of the first failing, the run ends with that exception after one reading of
  the clock and one directions request. The second route is never attempted.
\<close>

theorem route_isolation_counterexample:
  "fst (run_commute_tracker
          (env_of monday_0830 (\<lambda>k. if k = 0 then Failed else Response 200 (Doc (Some [alt_i90])))
             [route_home, route_gym]) empty_world) = ([], Some RequestException)
   \<and> requested (snd (run_commute_tracker
          (env_of monday_0830 (\<lambda>k. if k = 0 then Failed else Response 200 (Doc (Some [alt_i90])))
             [route_home, route_gym]) empty_world)) = [(''A'', ''B'')]
   \<and> reads (snd (run_commute_tracker
          (env_of monday_0830 (\<lambda>k. if k = 0 then Failed else Response 200 (Doc (Some [alt_i90])))
             [route_home, route_gym]) empty_world)) = 1"
  by (simp add: eval_defs interval_no_last_run)

text \<open>
  C1, amended. A failure of the directions fetch that the provider reports as a response
  with a status other than 200 does not keep the routes after it from being attempted:
  the route ends with the outcome \<open>NoRoutes\<close>, and the loop goes on with the next
  route from the state the route left. A failure that is raised as an exception while
  the route is processed is not caught by the loop: a failed network request, an
  alternative of which no row can be made, and an append that fails all leave
  \<^verbatim>\<open>log_route_to_sheet\<close> as an exception, which \<^const>\<open>process_route\<close> passes on; the
  loop ends there with the outcomes of the routes before, whatever routes follow, and
  \<^verbatim>\<open>main\<close> answers with the error.
\<close>

theorem route_isolation_by_failure_kind:
  assumes "log_route_to_sheet E ws ws_log route_name origin destination interval days start_s end_s w = (r, w')"
    and "now = now_chicago (clock E (reads w))"
    and "requested w' \<noteq> requested w"
  shows
    "(provider E (length (requested w)) origin destination = Response status_code b \<and> status_code \<noteq> 200 \<longrightarrow>
        r = Inr NoRoutes)
   \<and> (provider E (length (requested w)) origin destination = Failed \<longrightarrow> r = Inl RequestException)
   \<and> (provider E (length (requested w)) origin destination = Response 200 (Doc (Some alts))
        \<and> ((\<exists>a \<in> set alts. \<exists>e. make_row now a = Inl e)
             \<or> (\<exists>k < length alts. service_fails E (Suc (calls w) + k))) \<longrightarrow>
        (\<exists>e. r = Inl e))
   \<and> (\<forall>route name s e v v0.
        rt_name route = Some name \<and> rt_origin route = Some origin
        \<and> rt_destination route = Some destination \<and> rt_start route = Some s \<and> rt_end route = Some e
        \<and> get_or_create_worksheet E (str_replace name ''/'' ''-'') v = (Inr ws, v0) \<longrightarrow>
        process_route E ws_log route v =
          log_route_to_sheet E ws ws_log name origin destination
            (case rt_interval route of None \<Rightarrow> JInt 15 | Some i \<Rightarrow> i) None s e v0)
   \<and> (\<forall>route rest v out v1.
        process_route E ws_log route v = (Inr out, v1) \<longrightarrow>
        run_routes E ws_log (route # rest) v =
          (case run_routes E ws_log rest v1 of ((outs, x), v2) \<Rightarrow> ((out # outs, x), v2)))
   \<and> (\<forall>route rest v e v1.
        process_route E ws_log route v = (Inl e, v1) \<longrightarrow>
        run_routes E ws_log (route # rest) v = (([], Some e), v1))
   \<and> (\<forall>pre route post v outs v1 e v2.
        run_routes E ws_log pre v = ((outs, None), v1)
        \<and> process_route E ws_log route v1 = (Inl e, v2) \<longrightarrow>
        run_routes E ws_log (pre @ route # post) v = ((outs, Some e), v2)
        \<and> length outs = length pre)
   \<and> (\<forall>E' w0 outs' e' w1.
        run_commute_tracker E' w0 = ((outs', Some e'), w1) \<longrightarrow>
        main E' NoRequest w0 = (Error e', w1) \<and> main E' (Request ''GET'') w0 = (Error e', w1))"
proof -
  note f = log_route_fetch [OF assms, of status_code b alts]
  have a: "\<forall>route name s e v v0.
        rt_name route = Some name \<and> rt_origin route = Some origin
        \<and> rt_destination route = Some destination \<and> rt_start route = Some s \<and> rt_end route = Some e
        \<and> get_or_create_worksheet E (str_replace name ''/'' ''-'') v = (Inr ws, v0) \<longrightarrow>
        process_route E ws_log route v =
          log_route_to_sheet E ws ws_log name origin destination
            (case rt_interval route of None \<Rightarrow> JInt 15 | Some i \<Rightarrow> i) None s e v0"
    using process_route_is_log_route by blast
  have b: "\<forall>route rest v out v1.
        process_route E ws_log route v = (Inr out, v1) \<longrightarrow>
        run_routes E ws_log (route # rest) v =
          (case run_routes E ws_log rest v1 of ((outs, x), v2) \<Rightarrow> ((out # outs, x), v2))"
    by simp
  have c: "\<forall>route rest v e v1.
        process_route E ws_log route v = (Inl e, v1) \<longrightarrow>
        run_routes E ws_log (route # rest) v = (([], Some e), v1)"
    by simp
  have d: "\<forall>pre route post v outs v1 e v2.
        run_routes E ws_log pre v = ((outs, None), v1)
        \<and> process_route E ws_log route v1 = (Inl e, v2) \<longrightarrow>
        run_routes E ws_log (pre @ route # post) v = ((outs, Some e), v2)
        \<and> length outs = length pre"
  proof (intro allI impI)
    fix pre route post v outs v1 e v2
    assume h: "run_routes E ws_log pre v = ((outs, None), v1)
        \<and> process_route E ws_log route v1 = (Inl e, v2)"
    then have "run_routes E ws_log (pre @ route # post) v = ((outs, Some e), v2)"
      using run_routes_append [of E ws_log pre v outs v1 "route # post"] by simp
    moreover have "length outs = length pre"
      using h run_routes_length [of E ws_log pre v outs None v1] by simp
    ultimately show "run_routes E ws_log (pre @ route # post) v = ((outs, Some e), v2)
        \<and> length outs = length pre" by simp
  qed
  have e: "\<forall>E' w0 outs' e' w1.
        run_commute_tracker E' w0 = ((outs', Some e'), w1) \<longrightarrow>
        main E' NoRequest w0 = (Error e', w1) \<and> main E' (Request ''GET'') w0 = (Error e', w1)"
    by (simp add: main_def)
  from f a b c d e show ?thesis by (elim conjE, intro conjI) assumption+
qed

text \<open>
  The amended C1 on two routes on Monday at 08:30: when the provider answers the first
  request with status 503, the first route has no routes and the second is logged; when
  the first request fails, the run ends with one request issued.
\<close>

theorem route_isolation_by_failure_kind_witness:
  "fst (log_route_to_sheet
          (env_of monday_0830 (\<lambda>k. if k = 0 then Response 503 NotJson else Response 200 (Doc (Some [alt_i90])))
             [route_home, route_gym])
          ''Home-Work'' ''LastRunLog'' ''Home/Work'' ''A'' ''B'' (JInt 15) None JNull JNull empty_world)
     = Inr NoRoutes
   \<and> fst (run_commute_tracker
          (env_of monday_0830 (\<lambda>k. if k = 0 then Response 503 NotJson else Response 200 (Doc (Some [alt_i90])))
             [route_home, route_gym]) empty_world) = ([NoRoutes, Logged], None)
   \<and> requested (snd (run_commute_tracker
          (env_of monday_0830 (\<lambda>k. if k = 0 then Response 503 NotJson else Response 200 (Doc (Some [alt_i90])))
             [route_home, route_gym]) empty_world)) = [(''A'', ''B''), (''C'', ''D'')]
   \<and> fst (log_route_to_sheet (env_of monday_0830 (\<lambda>k. Failed) [route_home, route_gym])
          ''Home-Work'' ''LastRunLog'' ''Home/Work'' ''A'' ''B'' (JInt 15) None JNull JNull empty_world)
     = Inl RequestException
   \<and> fst (run_commute_tracker (env_of monday_0830 (\<lambda>k. Failed) [route_home, route_gym]) empty_world)
     = ([], Some RequestException)
   \<and> requested (snd (run_commute_tracker (env_of monday_0830 (\<lambda>k. Failed) [route_home, route_gym])
          empty_world)) = [(''A'', ''B'')]"
proof -
  define Ea where "Ea = env_of monday_0830
      (\<lambda>k. if k = 0 then Response 503 NotJson else Response 200 (Doc (Some [alt_i90])))
      [route_home, route_gym]"
  define Eb where "Eb = env_of monday_0830 (\<lambda>k. Failed) [route_home, route_gym]"
  define La where "La = log_route_to_sheet Ea ''Home-Work'' ''LastRunLog'' ''Home/Work'' ''A'' ''B''
      (JInt 15) None JNull JNull empty_world"
  define Lb where "Lb = log_route_to_sheet Eb ''Home-Work'' ''LastRunLog'' ''Home/Work'' ''A'' ''B''
      (JInt 15) None JNull JNull empty_world"
  have pa: "log_route_to_sheet Ea ''Home-Work'' ''LastRunLog'' ''Home/Work'' ''A'' ''B''
      (JInt 15) None JNull JNull empty_world = (fst La, snd La)" by (simp add: La_def)
  have pb: "log_route_to_sheet Eb ''Home-Work'' ''LastRunLog'' ''Home/Work'' ''A'' ''B''
      (JInt 15) None JNull JNull empty_world = (fst Lb, snd Lb)" by (simp add: Lb_def)
  have na: "now_chicago monday_0830 = now_chicago (clock Ea (reads empty_world))"
    by (simp add: Ea_def env_of_def)
  have nb: "now_chicago monday_0830 = now_chicago (clock Eb (reads empty_world))"
    by (simp add: Eb_def env_of_def)
  have ra: "requested (snd La) \<noteq> requested empty_world"
    by (simp add: La_def Ea_def gate_defs store_defs env_of_def empty_world_def interval_no_last_run)
  have rb: "requested (snd Lb) \<noteq> requested empty_world"
    by (simp add: Lb_def Eb_def gate_defs store_defs env_of_def empty_world_def interval_no_last_run)
  have sa: "provider Ea (length (requested empty_world)) ''A'' ''B'' = Response 503 NotJson \<and> (503::nat) \<noteq> 200"
    by (simp add: Ea_def env_of_def empty_world_def)
  have sb: "provider Eb (length (requested empty_world)) ''A'' ''B'' = Failed"
    by (simp add: Eb_def env_of_def)
  have a: "fst La = Inr NoRoutes"
    using route_isolation_by_failure_kind [OF pa na ra, of 503 NotJson] sa by blast
  have b: "fst Lb = Inl RequestException"
    using route_isolation_by_failure_kind [OF pb nb rb] sb by blast
  have c: "fst (run_commute_tracker Ea empty_world) = ([NoRoutes, Logged], None)
      \<and> requested (snd (run_commute_tracker Ea empty_world)) = [(''A'', ''B''), (''C'', ''D'')]"
    by (simp add: Ea_def eval_defs interval_no_last_run make_row_i90 print_routes_examples
        del: print_routes.simps)
  have d: "fst (run_commute_tracker Eb empty_world) = ([], Some RequestException)
      \<and> requested (snd (run_commute_tracker Eb empty_world)) = [(''A'', ''B'')]"
    by (simp add: Eb_def eval_defs interval_no_last_run)
  from a b c d show ?thesis unfolding La_def Lb_def Ea_def Eb_def by blast
qed

subsection \<open>C2: the directions client\<close>

text \<open>
  C2, as the specification states it: \<^verbatim>\<open>get_routes\<close> returns an empty sequence and
  does not raise, on a status that is not 2xx and on a failed network request alike.
  The call of \<^verbatim>\<open>requests.get\<close> is not inside a handler: when the request fails,
  \<^verbatim>\<open>get_routes\<close> raises.
\<close>

theorem get_routes_network_counterexample:
  "fst (get_routes (env_of monday_0830 (\<lambda>k. Failed) []) ''A'' ''B'' empty_world)
     = Inl RequestException"
  by (simp add: get_routes_def env_of_def empty_world_def)

text \<open>
  C2, amended: on a response whose status is not 200, \<^verbatim>\<open>get_routes\<close> returns the
  empty sequence and does not raise; when the network request itself fails, its
  exception leaves \<^verbatim>\<open>get_routes\<close>.
\<close>

theorem get_routes_fails_closed_on_status:
  "(provider E (length (requested w)) origin destination = Response status_code b \<and> status_code \<noteq> 200 \<longrightarrow>
      fst (get_routes E origin destination w) = Inr [])
   \<and> (provider E (length (requested w)) origin destination = Failed \<longrightarrow>
      fst (get_routes E origin destination w) = Inl RequestException)"
  by (simp add: get_routes_def Let_def)

text \<open>
  The amended C2 on a response with status 503 and on a failed request.
\<close>

theorem get_routes_fails_closed_on_status_witness:
  "fst (get_routes (env_of monday_0830 (\<lambda>k. Response 503 NotJson) []) ''A'' ''B'' empty_world) = Inr []
   \<and> fst (get_routes (env_of monday_0830 (\<lambda>k. Failed) []) ''A'' ''B'' empty_world) = Inl RequestException"
  using get_routes_fails_closed_on_status
      [of "env_of monday_0830 (\<lambda>k. Response 503 NotJson) []" empty_world "''A''" "''B''" 503 NotJson]
    get_routes_fails_closed_on_status
      [of "env_of monday_0830 (\<lambda>k. Failed) []" empty_world "''A''" "''B''" 503 NotJson]
  by (simp add: env_of_def)

subsection \<open>C3: the last run is recorded after the rows\<close>




subsection \<open>C4: a route document without start and end\<close>

text \<open>
  C4 says that a route document without \<^verbatim>\<open>start\<close> and \<^verbatim>\<open>end\<close> is processed
  with no window, and that a missing \<^verbatim>\<open>interval\<close> is 15 minutes. The loop reads
  \<^verbatim>\<open>route["start"]\<close> and \<^verbatim>\<open>route["end"]\<close>, while it reads the interval with
  \<^verbatim>\<open>route.get("interval", 15)\<close> and \<^verbatim>\<open>log_route_to_sheet\<close> has \<^verbatim>\<open>None\<close> as
  the default of both parameters. On a document without the two keys the run ends with
  KeyError before any directions request, and \<^verbatim>\<open>main\<close> answers with the error. The
  default of the interval is in force: with \<^verbatim>\<open>start\<close> and \<^verbatim>\<open>end\<close> null and no
  interval, a route logged five minutes before is skipped.
\<close>

theorem missing_window_keys_raise:
  "fst (run_commute_tracker
          (env_of monday_0830 (\<lambda>k. Response 200 (Doc (Some [alt_i90]))) [route_no_window])
          empty_world) = ([], Some (KeyError ''start''))
   \<and> requested (snd (run_commute_tracker
          (env_of monday_0830 (\<lambda>k. Response 200 (Doc (Some [alt_i90]))) [route_no_window])
          empty_world)) = []
   \<and> fst (main (env_of monday_0830 (\<lambda>k. Response 200 (Doc (Some [alt_i90]))) [route_no_window])
          NoRequest empty_world) = Error (KeyError ''start'')
   \<and> fst (run_commute_tracker (env_of monday_0830 (\<lambda>k. Failed) [route_home])
          (world_of ''Home/Work'' ''2024-03-04T08:25:00-06:00'')) = ([SkipInterval], None)"
  by (simp add: eval_defs interval_after_5_minutes)

subsection \<open>C5: the day filter\<close>

text \<open>
  C5: \<^verbatim>\<open>run_commute_tracker\<close> calls \<^verbatim>\<open>log_route_to_sheet\<close> without the
  argument \<^verbatim>\<open>days\<close>, which stays \<^verbatim>\<open>None\<close>; so, whatever the routes, the clock
  and the spreadsheet, no route of a run has the outcome \<open>SkipDay\<close>.
\<close>

theorem day_filter_never_exercised:
  "fst (process_route E ws_log route w) \<noteq> Inr SkipDay
   \<and> SkipDay \<notin> set (fst (fst (run_routes E ws_log rs w)))
   \<and> SkipDay \<notin> set (fst (fst (run_commute_tracker E w)))
   \<and> \<not> day_skipped now None"
  using process_route_no_skip_day run_routes_no_skip_day run_commute_tracker_no_skip_day
  by (simp add: day_skipped_def)

text \<open>
  C5 on a Monday run of one route; the same route is skipped for its day when the days
  are given to \<^verbatim>\<open>log_route_to_sheet\<close> as Saturday and Sunday.
\<close>

theorem day_filter_never_exercised_witness:
  "SkipDay \<notin> set (fst (fst (run_commute_tracker (env_of monday_0830 (\<lambda>k. Failed) [route_gym])
        (world_of ''Gym'' ''2024-03-04T08:25:00-06:00''))))
   \<and> fst (fst (run_commute_tracker (env_of monday_0830 (\<lambda>k. Failed) [route_gym])
        (world_of ''Gym'' ''2024-03-04T08:25:00-06:00''))) = [SkipInterval]
   \<and> fst (log_route_to_sheet (env_of monday_0830 (\<lambda>k. Failed) [])
          ''Gym'' ''LastRunLog'' ''Gym'' ''C'' ''D'' (JInt 30) (Some [''Saturday'', ''Sunday''])
          (JStr ''06:00'') (JStr ''09:00'') (world_of ''Gym'' ''2024-03-04T08:25:00-06:00'')) = Inr SkipDay"
proof -
  have i: "interval_skipped (now_chicago monday_0830) (Some monday_0825) (JInt 30) = Inr True"
    using interval_skipped_half_minutes [of 10 30 "now_chicago monday_0830" monday_0825]
    by (simp add: monday_0825_def)
  have "fst (fst (run_commute_tracker (env_of monday_0830 (\<lambda>k. Failed) [route_gym])
        (world_of ''Gym'' ''2024-03-04T08:25:00-06:00''))) = [SkipInterval]"
    by (simp add: eval_defs i)
  moreover have "fst (log_route_to_sheet (env_of monday_0830 (\<lambda>k. Failed) [])
          ''Gym'' ''LastRunLog'' ''Gym'' ''C'' ''D'' (JInt 30) (Some [''Saturday'', ''Sunday''])
          (JStr ''06:00'') (JStr ''09:00'') (world_of ''Gym'' ''2024-03-04T08:25:00-06:00'')) = Inr SkipDay"
    by (simp add: eval_defs)
  ultimately show ?thesis
    using day_filter_never_exercised
      [of "env_of monday_0830 (\<lambda>k. Failed) [route_gym]" "''LastRunLog''" route_gym
          "world_of ''Gym'' ''2024-03-04T08:25:00-06:00''" "[route_gym]" "now_chicago monday_0830"]
    by blast
qed

subsection \<open>C6: the order of the gate\<close>

text \<open>
  C6: the gate checks the day first, then the window, then the interval, and the first
  check that applies decides. A day that is not active skips before the window strings
  are parsed and before \<^verbatim>\<open>LastRunLog\<close> is read; a time outside the window skips
  before \<^verbatim>\<open>LastRunLog\<close> is read; a directions request is issued only when all
  three checks pass. The interval check compares the minutes since the last run, as a
  float with its fraction, with the interval: for a difference of \<open>j\<close> half minutes and
  an interval of \<open>n\<close> minutes the route is skipped exactly when \<open>j / 2 < n\<close>.
\<close>

theorem gate_order_short_circuit:
  assumes "log_route_to_sheet E ws ws_log route_name origin destination interval days start_s end_s w = (r, w')"
    and "now = now_chicago (clock E (reads w))"
    and "get_last_run_time E ws_log route_name (w\<lparr>reads := Suc (reads w)\<rparr>) = (last_dt, w1)"
  shows
    "(day_skipped now days \<longrightarrow>
        r = Inr SkipDay \<and> requested w' = requested w \<and> calls w' = calls w)
   \<and> (\<not> day_skipped now days \<and> window_skipped now start_s end_s = Inr True \<longrightarrow>
        r = Inr SkipWindow \<and> requested w' = requested w \<and> calls w' = calls w)
   \<and> (\<not> day_skipped now days \<and> window_skipped now start_s end_s = Inr False
        \<and> interval_skipped now last_dt interval = Inr True \<longrightarrow>
        r = Inr SkipInterval \<and> requested w' = requested w)
   \<and> (requested w' \<noteq> requested w \<longrightarrow>
        \<not> day_skipped now days \<and> window_skipped now start_s end_s = Inr False
        \<and> interval_skipped now last_dt interval = Inr False
        \<and> requested w' = requested w @ [(origin, destination)])
   \<and> (r = Inr SkipDay \<longleftrightarrow> day_skipped now days)
   \<and> (r = Inr SkipWindow \<longleftrightarrow>
        \<not> day_skipped now days \<and> window_skipped now start_s end_s = Inr True)
   \<and> (r = Inr SkipInterval \<longleftrightarrow>
        \<not> day_skipped now days \<and> window_skipped now start_s end_s = Inr False
        \<and> interval_skipped now last_dt interval = Inr True)
   \<and> (\<forall>l. interval_skipped now (Some l) interval =
        (case py_float interval of
           Inl e \<Rightarrow> Inl e
         | Inr f \<Rightarrow> Inr (flt (fdiv (total_seconds (instant now - instant l)) 60) f)))
   \<and> (\<forall>l j n. \<bar>j\<bar> < 2 ^ 47 \<and> \<bar>n\<bar> < 2 ^ 53 \<and> instant now - instant l = 30000000 * j \<longrightarrow>
        interval_skipped now (Some l) (JInt n) = Inr (of_int j / 2 < (of_int n :: rat)))"
proof -
  note g = get_last_run_time_frame [OF assms(3)]
  have a: "(\<forall>l. interval_skipped now (Some l) interval =
        (case py_float interval of
           Inl e \<Rightarrow> Inl e
         | Inr f \<Rightarrow> Inr (flt (fdiv (total_seconds (instant now - instant l)) 60) f)))"
    by (simp add: interval_skipped_def)
  have b: "(\<forall>l j n. \<bar>j\<bar> < 2 ^ 47 \<and> \<bar>n\<bar> < 2 ^ 53 \<and> instant now - instant l = 30000000 * j \<longrightarrow>
        interval_skipped now (Some l) (JInt n) = Inr (of_int j / 2 < (of_int n :: rat)))"
    using interval_skipped_half_minutes by blast
  have c: "(day_skipped now days \<longrightarrow>
        r = Inr SkipDay \<and> requested w' = requested w \<and> calls w' = calls w)
   \<and> (\<not> day_skipped now days \<and> window_skipped now start_s end_s = Inr True \<longrightarrow>
        r = Inr SkipWindow \<and> requested w' = requested w \<and> calls w' = calls w)
   \<and> (\<not> day_skipped now days \<and> window_skipped now start_s end_s = Inr False
        \<and> interval_skipped now last_dt interval = Inr True \<longrightarrow>
        r = Inr SkipInterval \<and> requested w' = requested w)
   \<and> (requested w' \<noteq> requested w \<longrightarrow>
        \<not> day_skipped now days \<and> window_skipped now start_s end_s = Inr False
        \<and> interval_skipped now last_dt interval = Inr False
        \<and> requested w' = requested w @ [(origin, destination)])
   \<and> (r = Inr SkipDay \<longleftrightarrow> day_skipped now days)
   \<and> (r = Inr SkipWindow \<longleftrightarrow>
        \<not> day_skipped now days \<and> window_skipped now start_s end_s = Inr True)
   \<and> (r = Inr SkipInterval \<longleftrightarrow>
        \<not> day_skipped now days \<and> window_skipped now start_s end_s = Inr False
        \<and> interval_skipped now last_dt interval = Inr True)"
    using assms(1,2)
  proof (cases rule: log_route_to_sheet_cases)
    case day
    then show ?thesis by simp
  next
    case (window_raised e)
    then show ?thesis by simp
  next
    case window
    then show ?thesis by simp
  next
    case (interval_raised e last_dt' w1')
    with assms(3) g show ?thesis by simp
  next
    case (interval last_dt' w1')
    with assms(3) g show ?thesis by simp
  next
    case (fetch_raised e last_dt' w1')
    with assms(3) g get_routes_frame [OF fetch_raised(5)] show ?thesis by simp
  next
    case (no_routes last_dt' w1')
    with assms(3) g get_routes_frame [OF no_routes(5)] show ?thesis by simp
  next
    case (rows_raised e last_dt' w1' alts w2)
    with assms(3) g get_routes_frame [OF rows_raised(5)] log_rows_frame [OF rows_raised(7)]
    show ?thesis by simp
  next
    case (logged last_dt' w1' alts w2 w3)
    with assms(3) g get_routes_frame [OF logged(5)] log_rows_frame [OF logged(7)]
    show ?thesis by (simp add: update_last_run_time_frame)
  qed
  from a b c show ?thesis by blast
qed

text \<open>
  C6 on four runs on Monday at 08:30: days Saturday and Sunday with window strings that
  do not parse; a window from 09:00 to 17:00; a last run at 08:25 with an interval of 15
  minutes; a last run at 08:00, after which the request is issued.
\<close>

theorem gate_order_short_circuit_witness:
  "fst (log_route_to_sheet (env_of monday_0830 (\<lambda>k. Failed) [])
          ''Home'' ''LastRunLog'' ''Home'' ''A'' ''B'' (JInt 15) (Some [''Saturday'', ''Sunday''])
          (JStr ''late'') (JStr ''never'') empty_world) = Inr SkipDay
   \<and> requested (snd (log_route_to_sheet (env_of monday_0830 (\<lambda>k. Failed) [])
          ''Home'' ''LastRunLog'' ''Home'' ''A'' ''B'' (JInt 15) (Some [''Saturday'', ''Sunday''])
          (JStr ''late'') (JStr ''never'') empty_world)) = []
   \<and> fst (log_route_to_sheet (env_of monday_0830 (\<lambda>k. Failed) [])
          ''Home'' ''LastRunLog'' ''Home'' ''A'' ''B'' (JInt 15) None
          (JStr ''09:00'') (JStr ''17:00'') (world_of ''Home'' ''2024-03-04T08:25:00-06:00'')) = Inr SkipWindow
   \<and> calls (snd (log_route_to_sheet (env_of monday_0830 (\<lambda>k. Failed) [])
          ''Home'' ''LastRunLog'' ''Home'' ''A'' ''B'' (JInt 15) None
          (JStr ''09:00'') (JStr ''17:00'') (world_of ''Home'' ''2024-03-04T08:25:00-06:00''))) = 0
   \<and> fst (log_route_to_sheet (env_of monday_0830 (\<lambda>k. Failed) [])
          ''Home'' ''LastRunLog'' ''Home'' ''A'' ''B'' (JInt 15) None
          (JStr ''06:00'') (JStr ''09:00'') (world_of ''Home'' ''2024-03-04T08:25:00-06:00'')) = Inr SkipInterval
   \<and> requested (snd (log_route_to_sheet (env_of monday_0830 (\<lambda>k. Failed) [])
          ''Home'' ''LastRunLog'' ''Home'' ''A'' ''B'' (JInt 15) None
          (JStr ''06:00'') (JStr ''09:00'') (world_of ''Home'' ''2024-03-04T08:25:00-06:00''))) = []
   \<and> requested (snd (log_route_to_sheet (env_of monday_0830 (\<lambda>k. Failed) [])
          ''Home'' ''LastRunLog'' ''Home'' ''A'' ''B'' (JInt 15) None
          (JStr ''06:00'') (JStr ''09:00'') (world_of ''Home'' ''2024-03-04T08:00:00-06:00''))) = [(''A'', ''B'')]
   \<and> interval_skipped (now_chicago monday_0830) (Some monday_0800) (JInt 15) = Inr (60 / 2 < (15 :: rat))"
proof -
  define E where "E = env_of monday_0830 (\<lambda>k. Failed) []"
  define now where "now = now_chicago monday_0830"
  have n: "\<And>w. now = now_chicago (clock E (reads w))" by (simp add: now_def E_def env_of_def)
  have p: "\<And>x :: (exn + outcome) \<times> world. x = (fst x, snd x)"
    and q: "\<And>x :: pydatetime option \<times> world. x = (fst x, snd x)" by simp_all
  have g25: "fst (get_last_run_time E ''LastRunLog'' ''Home''
        ((world_of ''Home'' ''2024-03-04T08:25:00-06:00'')\<lparr>reads := Suc (reads (world_of ''Home'' ''2024-03-04T08:25:00-06:00''))\<rparr>))
      = Some monday_0825"
    by (simp add: store_defs E_def env_of_def world_of_def parse_iso_def)
  have g00: "fst (get_last_run_time E ''LastRunLog'' ''Home''
        ((world_of ''Home'' ''2024-03-04T08:00:00-06:00'')\<lparr>reads := Suc (reads (world_of ''Home'' ''2024-03-04T08:00:00-06:00''))\<rparr>))
      = Some monday_0800"
    by (simp add: store_defs E_def env_of_def world_of_def parse_iso_def)
  have d: "day_skipped now (Some [''Saturday'', ''Sunday''])" "\<not> day_skipped now None"
    by (simp_all add: day_skipped_def now_def)
  have wn: "window_skipped now (JStr ''09:00'') (JStr ''17:00'') = Inr True"
    "window_skipped now (JStr ''06:00'') (JStr ''09:00'') = Inr False"
    by (simp_all add: window_skipped_def strptime_HM_def digit_val_def now_def)
  have i: "interval_skipped now (Some monday_0825) (JInt 15) = Inr True"
    "interval_skipped now (Some monday_0800) (JInt 15) = Inr False"
    unfolding now_def by (rule interval_after_5_minutes, rule interval_after_30_minutes)
  have a: "fst (log_route_to_sheet E ''Home'' ''LastRunLog'' ''Home'' ''A'' ''B'' (JInt 15)
          (Some [''Saturday'', ''Sunday'']) (JStr ''late'') (JStr ''never'') empty_world) = Inr SkipDay
      \<and> requested (snd (log_route_to_sheet E ''Home'' ''LastRunLog'' ''Home'' ''A'' ''B'' (JInt 15)
          (Some [''Saturday'', ''Sunday'']) (JStr ''late'') (JStr ''never'') empty_world)) = []"
    using gate_order_short_circuit [where E = E and ws = "''Home''" and ws_log = "''LastRunLog''"
        and route_name = "''Home''" and origin = "''A''" and destination = "''B''"
        and interval = "JInt 15" and days = "Some [''Saturday'', ''Sunday'']" and start_s = "JStr ''late''"
        and end_s = "JStr ''never''" and w = "empty_world", OF p n q] d
    by (simp add: empty_world_def)
  have b: "fst (log_route_to_sheet E ''Home'' ''LastRunLog'' ''Home'' ''A'' ''B'' (JInt 15) None
          (JStr ''09:00'') (JStr ''17:00'') (world_of ''Home'' ''2024-03-04T08:25:00-06:00'')) = Inr SkipWindow
      \<and> calls (snd (log_route_to_sheet E ''Home'' ''LastRunLog'' ''Home'' ''A'' ''B'' (JInt 15) None
          (JStr ''09:00'') (JStr ''17:00'') (world_of ''Home'' ''2024-03-04T08:25:00-06:00''))) = 0"
    using gate_order_short_circuit [where E = E and ws = "''Home''" and ws_log = "''LastRunLog''"
        and route_name = "''Home''" and origin = "''A''" and destination = "''B''"
        and interval = "JInt 15" and days = "None" and start_s = "JStr ''09:00''"
        and end_s = "JStr ''17:00''" and w = "world_of ''Home'' ''2024-03-04T08:25:00-06:00''", OF p n q] d wn
    by (simp add: world_of_def)
  have c: "fst (log_route_to_sheet E ''Home'' ''LastRunLog'' ''Home'' ''A'' ''B'' (JInt 15) None
          (JStr ''06:00'') (JStr ''09:00'') (world_of ''Home'' ''2024-03-04T08:25:00-06:00'')) = Inr SkipInterval
      \<and> requested (snd (log_route_to_sheet E ''Home'' ''LastRunLog'' ''Home'' ''A'' ''B'' (JInt 15) None
          (JStr ''06:00'') (JStr ''09:00'') (world_of ''Home'' ''2024-03-04T08:25:00-06:00''))) = []"
    using gate_order_short_circuit [where E = E and ws = "''Home''" and ws_log = "''LastRunLog''"
        and route_name = "''Home''" and origin = "''A''" and destination = "''B''"
        and interval = "JInt 15" and days = "None" and start_s = "JStr ''06:00''"
        and end_s = "JStr ''09:00''" and w = "world_of ''Home'' ''2024-03-04T08:25:00-06:00''", OF p n q] d wn i
    unfolding g25 by (simp add: world_of_def)
  have e: "requested (snd (log_route_to_sheet E ''Home'' ''LastRunLog'' ''Home'' ''A'' ''B'' (JInt 15) None
          (JStr ''06:00'') (JStr ''09:00'') (world_of ''Home'' ''2024-03-04T08:00:00-06:00''))) = [(''A'', ''B'')]"
    by (simp add: gate_defs store_defs E_def env_of_def world_of_def parse_iso_def
        interval_after_30_minutes)
  have f: "interval_skipped now (Some monday_0800) (JInt 15) = Inr (60 / 2 < (15 :: rat))"
    using gate_order_short_circuit [where E = E and ws = "''Home''" and ws_log = "''LastRunLog''"
        and route_name = "''Home''" and origin = "''A''" and destination = "''B''"
        and interval = "JInt 15" and days = "None" and start_s = "JStr ''06:00''"
        and end_s = "JStr ''09:00''" and w = "world_of ''Home'' ''2024-03-04T08:00:00-06:00''", OF p n q]
      i(2)
    by simp
  from a b c e f show ?thesis unfolding E_def now_def by blast
qed

subsection \<open>C7: the bounds of the window\<close>

text \<open>
  C7, as the specification states it: for every route with both bounds set, a time of
  day equal to a bound is inside the window. The window is the comparison
  \<^verbatim>\<open>start_t <= t <= end_t\<close>, which no time satisfies when the start is after the
  end: with the window 22:00 to 06:00, a run at 06:00 is skipped for its window.
\<close>

theorem window_wraparound_counterexample:
  "fst (log_route_to_sheet (env_of monday_0600 (\<lambda>k. Failed) [])
          ''Home'' ''LastRunLog'' ''Home'' ''A'' ''B'' (JInt 15) None (JStr ''22:00'') (JStr ''06:00'')
          empty_world) = Inr SkipWindow
   \<and> strptime_HM ''06:00'' = Inr (time_of (now_chicago monday_0600))"
  by (simp add: eval_defs)

text \<open>
  C7, amended: for every route whose two bounds parse and whose start is not after its
  end, a run whose time of day equals the start or the end is inside the window, and
  its outcome is not \<open>SkipWindow\<close>.
\<close>

theorem window_bounds_inclusive:
  assumes "log_route_to_sheet E ws ws_log route_name origin destination interval days (JStr s) (JStr e) w = (r, w')"
    and "now = now_chicago (clock E (reads w))"
    and "strptime_HM s = Inr start_t" and "strptime_HM e = Inr end_t"
    and "time_le start_t end_t"
    and "time_of now = start_t \<or> time_of now = end_t"
  shows "window_skipped now (JStr s) (JStr e) = Inr False \<and> r \<noteq> Inr SkipWindow"
proof -
  have "time_le start_t (time_of now) \<and> time_le (time_of now) end_t"
    using assms(5,6) by (auto simp: time_le_refl)
  then have ws: "window_skipped now (JStr s) (JStr e) = Inr False"
    using assms(3,4) by (simp add: window_skipped_def)
  from assms(1,2) have "r \<noteq> Inr SkipWindow"
    by (cases rule: log_route_to_sheet_cases) (use ws in simp_all)
  with ws show ?thesis by simp
qed

text \<open>
  The amended C7 on the window 06:00 to 09:00 and a run at 06:00.
\<close>

theorem window_bounds_inclusive_witness:
  "window_skipped (now_chicago monday_0600) (JStr ''06:00'') (JStr ''09:00'') = Inr False
   \<and> fst (log_route_to_sheet (env_of monday_0600 (\<lambda>k. Failed) [])
          ''Home'' ''LastRunLog'' ''Home'' ''A'' ''B'' (JInt 15) None (JStr ''06:00'') (JStr ''09:00'')
          empty_world) \<noteq> Inr SkipWindow"
proof -
  have h1: "log_route_to_sheet (env_of monday_0600 (\<lambda>k. Failed) [])
          ''Home'' ''LastRunLog'' ''Home'' ''A'' ''B'' (JInt 15) None (JStr ''06:00'') (JStr ''09:00'')
          empty_world
      = (fst (log_route_to_sheet (env_of monday_0600 (\<lambda>k. Failed) [])
          ''Home'' ''LastRunLog'' ''Home'' ''A'' ''B'' (JInt 15) None (JStr ''06:00'') (JStr ''09:00'')
          empty_world),
         snd (log_route_to_sheet (env_of monday_0600 (\<lambda>k. Failed) [])
          ''Home'' ''LastRunLog'' ''Home'' ''A'' ''B'' (JInt 15) None (JStr ''06:00'') (JStr ''09:00'')
          empty_world))"
    by simp
  have h2: "now_chicago monday_0600
      = now_chicago (clock (env_of monday_0600 (\<lambda>k. Failed) []) (reads empty_world))"
    by (simp add: env_of_def)
  have h3: "strptime_HM ''06:00'' = Inr (6, 0, 0, 0)" by (simp add: strptime_HM_def digit_val_def)
  have h4: "strptime_HM ''09:00'' = Inr (9, 0, 0, 0)" by (simp add: strptime_HM_def digit_val_def)
  have h5: "time_le (6, 0, 0, 0) (9, 0, 0, 0)" by simp
  have h6: "time_of (now_chicago monday_0600) = (6, 0, 0, 0) \<or> time_of (now_chicago monday_0600) = (9, 0, 0, 0)"
    by simp
  from window_bounds_inclusive [OF h1 h2 h3 h4 h5 h6] show ?thesis .
qed

subsection \<open>C8: the directions text\<close>

text \<open>
  C8, as the specification states it: the persisted text is the steps' instructions with
  the HTML markup stripped. It fails on an instruction that carries a tag other than
  \<^verbatim>\<open><b>\<close>: the \<^verbatim>\<open><div>\<close> that the provider puts around a notice stays in the
  persisted text.
\<close>

theorem turn_by_turn_html_counterexample:
  "turn_by_turn [\<lparr>html_instructions = Some ''Merge onto <b>I-90</b><div>Toll road</div>''\<rparr>]
     = Inr ''Merge onto I-90<div>Toll road</div>''
   \<and> spec_directions_text [''Merge onto <b>I-90</b><div>Toll road</div>'']
     = ''Merge onto I-90Toll road''"
  by (simp add: turn_by_turn_def strip_bold_def spec_directions_text_def)

text \<open>
  C8, amended: the persisted text is each step's instruction from which the occurrences
  of the literal \<^verbatim>\<open><b>\<close> and then those of \<^verbatim>\<open></b>\<close> are removed (other markup
  stays), joined by the arrow in the order of the steps. No step gives the empty text,
  one step gives its text with no arrow, and an instruction without \<^verbatim>\<open><\<close> is
  persisted as it is.
\<close>

theorem turn_by_turn_strips_bold_only:
  "turn_by_turn (map (\<lambda>t. \<lparr>html_instructions = Some t\<rparr>) texts)
     = Inr (str_join arrow
         (map (\<lambda>t. str_replace (str_replace t ''<b>'' []) ''</b>'' []) texts))
   \<and> turn_by_turn [] = Inr []
   \<and> turn_by_turn [\<lparr>html_instructions = Some t\<rparr>] = Inr (strip_bold t)
   \<and> turn_by_turn [\<lparr>html_instructions = Some t\<rparr>, \<lparr>html_instructions = Some u\<rparr>]
       = Inr (strip_bold t @ arrow @ strip_bold u)
   \<and> (CHR ''<'' \<notin> set t \<longrightarrow> strip_bold t = t)"
proof -
  have a: "turn_by_turn (map (\<lambda>t. \<lparr>html_instructions = Some t\<rparr>) texts)
     = Inr (str_join arrow
         (map (\<lambda>t. str_replace (str_replace t ''<b>'' []) ''</b>'' []) texts))"
    using step_texts_all_present [of texts]
    by (simp add: turn_by_turn_def strip_bold_def [abs_def])
  have b: "turn_by_turn [] = Inr []"
    by (simp add: turn_by_turn_def)
  have c: "turn_by_turn [\<lparr>html_instructions = Some t\<rparr>] = Inr (strip_bold t)"
    by (simp add: turn_by_turn_def)
  have d: "turn_by_turn [\<lparr>html_instructions = Some t\<rparr>, \<lparr>html_instructions = Some u\<rparr>]
       = Inr (strip_bold t @ arrow @ strip_bold u)"
    by (simp add: turn_by_turn_def)
  have e: "CHR ''<'' \<notin> set t \<longrightarrow> strip_bold t = t"
    by (simp add: strip_bold_plain)
  from a b c d e show ?thesis by blast
qed

text \<open>
  The amended C8 on the two steps of the specification's example.
\<close>

theorem turn_by_turn_strips_bold_only_witness:
  "CHR ''<'' \<notin> set ''Merge'' \<and> strip_bold ''Merge'' = ''Merge''
   \<and> turn_by_turn [\<lparr>html_instructions = Some ''Turn <b>left</b>''\<rparr>, \<lparr>html_instructions = Some ''Merge''\<rparr>]
       = Inr (''Turn left'' @ arrow @ ''Merge'')"
  using turn_by_turn_strips_bold_only [of "[]" "''Merge''" "''Merge''"]
    turn_by_turn_strips_bold_only [of "[]" "''Turn <b>left</b>''" "''Merge''"]
  by (simp add: strip_bold_def)

subsection \<open>C9: the duration\<close>



subsection \<open>C10: the distance\<close>

text \<open>
  C10: the miles are the meters divided by \<^verbatim>\<open>1609.34\<close>, the quotient rounded to one
  decimal; 1609.34 m give 1.0 and 16093.4 m give 10.0; and the conversion is monotonic:
  of two distances, the one with no more meters has no more miles.
\<close>

theorem distance_miles_conversion:
  "miles_of v = (case div_mile v of Inl e \<Rightarrow> Inl e | Inr q \<Rightarrow> Inr (py_round1 q))
   \<and> (distance l = Some d \<and> tv_value d = Some v \<longrightarrow> distance_mi l = miles_of v)
   \<and> miles_of (JReal (160934 / 100)) = Inr (Fin 1)
   \<and> miles_of (JReal (160934 / 10)) = Inr (Fin 10)
   \<and> (jval a \<le> jval b \<and> miles_of a = Inr x \<and> miles_of b = Inr y \<longrightarrow> fle x y)"
proof -
  have "distance l = Some d \<and> tv_value d = Some v \<longrightarrow> distance_mi l = miles_of v"
    by (simp add: distance_mi_def)
  moreover have "jval a \<le> jval b \<and> miles_of a = Inr x \<and> miles_of b = Inr y \<longrightarrow> fle x y"
    using miles_of_mono by blast
  moreover have "miles_of v = (case div_mile v of Inl e \<Rightarrow> Inl e | Inr q \<Rightarrow> Inr (py_round1 q))"
    by (simp add: miles_of_def)
  ultimately show ?thesis
    using miles_of_one_mile miles_of_ten_miles by blast
qed

text \<open>
  C10 on the two distances of the specification, and on the leg of its example.
\<close>

theorem distance_miles_conversion_witness:
  "jval (JReal (160934 / 100)) \<le> jval (JReal (160934 / 10))
   \<and> miles_of (JReal (160934 / 100)) = Inr (Fin 1)
   \<and> miles_of (JReal (160934 / 10)) = Inr (Fin 10)
   \<and> fle (Fin 1) (Fin 10)
   \<and> distance_mi leg_i90 = Inr (Fin 10)"
proof -
  note t = distance_miles_conversion [of "JReal (160934 / 10)" leg_i90
      "\<lparr>tv_text = Some ''10.0 mi'', tv_value = Some (JReal (160934 / 10))\<rparr>"
      "JReal (160934 / 100)" "JReal (160934 / 10)" "Fin 1" "Fin 10"]
  have m: "miles_of (JReal (160934 / 100)) = Inr (Fin 1)" "miles_of (JReal (160934 / 10)) = Inr (Fin 10)"
    using t by blast+
  have le: "jval (JReal (160934 / 100)) \<le> jval (JReal (160934 / 10))" by simp
  have f: "fle (Fin 1) (Fin 10)" using t le m by blast
  have d: "distance leg_i90 = Some \<lparr>tv_text = Some ''10.0 mi'', tv_value = Some (JReal (160934 / 10))\<rparr>
      \<and> tv_value \<lparr>tv_text = Some ''10.0 mi'', tv_value = Some (JReal (160934 / 10))\<rparr> = Some (JReal (160934 / 10))"
    unfolding leg_i90_def leg.simps text_value.simps by simp
  have "distance_mi leg_i90 = miles_of (JReal (160934 / 10))" using t d by blast
  with m le f show ?thesis by (simp only: simp_thms)
qed

end
